theory Spec2Isabelle
  imports Main "HOL-Library.AList" "HOL-Library.Char_ord" "HOL-Library.List_Lexorder"
begin

section \<open>Strings and numbers of the host language\<close>

text \<open>
  The worker is JavaScript. Strings are modelled as \<open>string\<close> (lists of 8-bit
  characters, a non-ASCII character being its UTF-8 bytes); the built-in string
  operations the source calls are written out below, with the behaviour the language
  defines for the arguments the source can pass.
\<close>

definition startsWith :: "string \<Rightarrow> string \<Rightarrow> bool" where
  "startsWith s p = (take (length p) s = p)"

text \<open>\<open>s.toLowerCase()\<close>: the ASCII capitals change. The letters outside ASCII are
  left as they are, which makes no difference to the comparison with the allowed
  extensions: the only characters outside ASCII whose lower case has an ASCII letter
  are the Kelvin sign (\<open>k\<close>) and the dotted capital I (\<open>i\<close> and a combining
  dot), and neither yields an allowed extension.\<close>

definition lower_char :: "char \<Rightarrow> char" where
  "lower_char c =
     (case map_of (zip ''ABCDEFGHIJKLMNOPQRSTUVWXYZ'' ''abcdefghijklmnopqrstuvwxyz'') c of
        Some l \<Rightarrow> l
      | None \<Rightarrow> c)"

definition toLowerCase :: "string \<Rightarrow> string" where
  "toLowerCase s = map lower_char s"

text \<open>\<open>s.lastIndexOf(c)\<close> for a one-character needle: the index of the last
  occurrence, \<open>-1\<close> when there is none.\<close>

primrec lastIndexOf_from :: "char \<Rightarrow> string \<Rightarrow> int \<Rightarrow> int \<Rightarrow> int" where
  "lastIndexOf_from c [] i found = found"
| "lastIndexOf_from c (x # xs) i found =
     lastIndexOf_from c xs (i + 1) (if x = c then i else found)"

definition lastIndexOf :: "string \<Rightarrow> char \<Rightarrow> int" where
  "lastIndexOf s c = lastIndexOf_from c s 0 (- 1)"

text \<open>\<open>s.substring(start)\<close>: a negative start counts as 0, a start beyond the end
  gives the empty string.\<close>

definition substring :: "string \<Rightarrow> int \<Rightarrow> string" where
  "substring s start = drop (nat (max 0 start)) s"

text \<open>\<open>s.split(sep)\<close> for a non-empty separator: the pieces between the
  occurrences of \<open>sep\<close>, found left to right without overlap.\<close>

function split_from :: "string \<Rightarrow> string \<Rightarrow> string \<Rightarrow> string list" where
  "split_from sep piece [] = [rev piece]"
| "split_from sep piece (c # cs) =
     (if sep \<noteq> [] \<and> startsWith (c # cs) sep
      then rev piece # split_from sep [] (drop (length sep) (c # cs))
      else split_from sep (c # piece) cs)"
  by pat_completeness auto
termination
  by (relation "measure (\<lambda>(sep, piece, s). length s)") auto

definition split :: "string \<Rightarrow> string \<Rightarrow> string list" where
  "split s sep = split_from sep [] s"

text \<open>\<open>xs[i]\<close> on an array: \<open>undefined\<close> (here \<open>None\<close>) out of range.\<close>

definition element :: "'a list \<Rightarrow> nat \<Rightarrow> 'a option" where
  "element xs i = (if i < length xs then Some (xs ! i) else None)"

text \<open>\<open>s.replace(pat, rep)\<close> with a string pattern: the first occurrence only.\<close>

fun replace :: "string \<Rightarrow> string \<Rightarrow> string \<Rightarrow> string" where
  "replace [] pat rep = (if pat = [] then rep else [])"
| "replace (c # cs) pat rep =
     (if startsWith (c # cs) pat then rep @ drop (length pat) (c # cs)
      else c # replace cs pat rep)"

subsection \<open>Percent-decoding and percent-encoding\<close>

text \<open>What the program can throw: the \<open>URIError\<close> of a malformed escape, a
  \<open>TypeError\<close> of the language (with its message), and the \<open>Error\<close> of a store
  operation that fails (with its message).\<close>

datatype js_error = URIError | TypeError string | StoreError string

definition hex_digit :: "char \<Rightarrow> nat option" where
  "hex_digit c =
     map_of
       [(CHR ''0'', 0), (CHR ''1'', 1), (CHR ''2'', 2), (CHR ''3'', 3), (CHR ''4'', 4),
        (CHR ''5'', 5), (CHR ''6'', 6), (CHR ''7'', 7), (CHR ''8'', 8), (CHR ''9'', 9),
        (CHR ''a'', 10), (CHR ''b'', 11), (CHR ''c'', 12), (CHR ''d'', 13), (CHR ''e'', 14),
        (CHR ''f'', 15), (CHR ''A'', 10), (CHR ''B'', 11), (CHR ''C'', 12), (CHR ''D'', 13),
        (CHR ''E'', 14), (CHR ''F'', 15)] c"

text \<open>A string is first cut into literal characters and \<open>%XX\<close> escapes; a \<open>%\<close>
  that is not followed by two hexadecimal digits is a \<open>URIError\<close>.\<close>

datatype token = Lit char | Esc nat

fun tokens :: "string \<Rightarrow> token list option" where
  "tokens [] = Some []"
| "tokens (c # cs) =
     (if c = CHR ''%''
      then (case cs of
              h # l # rest \<Rightarrow>
                (case (hex_digit h, hex_digit l) of
                   (Some a, Some b) \<Rightarrow> map_option (Cons (Esc (16 * a + b))) (tokens rest)
                 | _ \<Rightarrow> None)
            | _ \<Rightarrow> None)
      else map_option (Cons (Lit c)) (tokens cs))"

text \<open>The escapes must spell well-formed UTF-8: an octet below \<open>0x80\<close> stands alone;
  a lead octet announces one to three continuation escapes, which must follow
  immediately and lie in the range the encoding allows (no overlong forms, no
  surrogates, nothing above \<open>U+10FFFF\<close>). \<open>utf8_ok k lo hi ts\<close> reads \<open>ts\<close> with
  \<open>k\<close> continuation escapes still owed, the next of them within \<open>lo..hi\<close>.\<close>

fun utf8_ok :: "nat \<Rightarrow> nat \<Rightarrow> nat \<Rightarrow> token list \<Rightarrow> bool" where
  "utf8_ok k lo hi [] = (k = 0)"
| "utf8_ok k lo hi (Lit c # ts) = (k = 0 \<and> utf8_ok 0 128 191 ts)"
| "utf8_ok k lo hi (Esc b # ts) =
     (if k > 0 then lo \<le> b \<and> b \<le> hi \<and> utf8_ok (k - 1) 128 191 ts
      else if b < 128 then utf8_ok 0 128 191 ts
      else if 194 \<le> b \<and> b \<le> 223 then utf8_ok 1 128 191 ts
      else if b = 224 then utf8_ok 2 160 191 ts
      else if b = 237 then utf8_ok 2 128 159 ts
      else if 225 \<le> b \<and> b \<le> 239 then utf8_ok 2 128 191 ts
      else if b = 240 then utf8_ok 3 144 191 ts
      else if 241 \<le> b \<and> b \<le> 243 then utf8_ok 3 128 191 ts
      else if b = 244 then utf8_ok 3 128 143 ts
      else False)"

fun token_char :: "token \<Rightarrow> char" where
  "token_char (Lit c) = c"
| "token_char (Esc b) = char_of b"

text \<open>\<open>decodeURIComponent(s)\<close>: \<open>Inl URIError\<close> where the built-in throws.\<close>

definition decodeURIComponent :: "string \<Rightarrow> js_error + string" where
  "decodeURIComponent s =
     (case tokens s of
        None \<Rightarrow> Inl URIError
      | Some ts \<Rightarrow> if utf8_ok 0 128 191 ts then Inr (map token_char ts) else Inl URIError)"

definition hex_char :: "nat \<Rightarrow> char" where
  "hex_char d = ''0123456789ABCDEF'' ! (d mod 16)"

definition unreserved :: "char \<Rightarrow> bool" where
  "unreserved c =
     (c \<in> set ''ABCDEFGHIJKLMNOPQRSTUVWXYZabcdefghijklmnopqrstuvwxyz0123456789-_.!~*'' \<or>
      c = CHR 0x27 \<or> c = CHR ''('' \<or> c = CHR '')'')"

text \<open>\<open>encodeURIComponent(s)\<close> on a well-formed string: every octet outside the
  unreserved set becomes \<open>%XX\<close>.\<close>

definition encodeURIComponent :: "string \<Rightarrow> string" where
  "encodeURIComponent s =
     concat (map (\<lambda>c. if unreserved c then [c]
                       else [CHR ''%'', hex_char (of_char c div 16), hex_char (of_char c mod 16)]) s)"

subsection \<open>Numbers\<close>

text \<open>A Number is an IEEE double. The program only ever holds integers (counters,
  their sums, the clock), so a finite Number is kept as the integer it is, and
  \<open>to_number\<close> rounds a mathematical integer to the nearest double, ties to the
  even significand (53 bits), or to an infinity beyond the largest double. Minus
  zero is kept as 0: the program only adds to it and prints it, and both give what
  0 gives.\<close>

datatype jsnum = NaN | Num int | PosInfinity | NegInfinity

function bit_length :: "nat \<Rightarrow> nat" where
  "bit_length m = (if m = 0 then 0 else Suc (bit_length (m div 2)))"
  by pat_completeness auto
termination
  by (relation "measure (\<lambda>m. m)") auto

definition round_nat :: "nat \<Rightarrow> nat" where
  "round_nat m =
     (let e = bit_length m - 53; q = m div 2 ^ e; r = m mod 2 ^ e
      in if e = 0 then m
         else if 2 ^ e < 2 * r \<or> (2 * r = 2 ^ e \<and> odd q) then (q + 1) * 2 ^ e
         else q * 2 ^ e)"

definition to_number :: "int \<Rightarrow> jsnum" where
  "to_number i =
     (let m = round_nat (nat \<bar>i\<bar>)
      in if 1024 < bit_length m then (if i < 0 then NegInfinity else PosInfinity)
         else Num (if i < 0 then - int m else int m))"

text \<open>\<open>a + b\<close>: the exact sum, rounded.\<close>

fun num_add :: "jsnum \<Rightarrow> jsnum \<Rightarrow> jsnum" where
  "num_add (Num a) (Num b) = to_number (a + b)"
| "num_add NaN _ = NaN"
| "num_add _ NaN = NaN"
| "num_add PosInfinity NegInfinity = NaN"
| "num_add NegInfinity PosInfinity = NaN"
| "num_add PosInfinity _ = PosInfinity"
| "num_add NegInfinity _ = NegInfinity"
| "num_add (Num a) PosInfinity = PosInfinity"
| "num_add (Num a) NegInfinity = NegInfinity"

definition digit_char :: "nat \<Rightarrow> char" where
  "digit_char d = ''0123456789'' ! (d mod 10)"

function decimal :: "nat \<Rightarrow> string" where
  "decimal n = (if n < 10 then [digit_char n] else decimal (n div 10) @ [digit_char (n mod 10)])"
  by pat_completeness auto
termination
  by (relation "measure (\<lambda>n. n)") auto

text \<open>\<open>n.toString()\<close> prints the decimal number with the fewest significant digits
  that still rounds to \<open>n\<close> (the closest such, the even one on a tie), padded with
  zeros up to 21 digits and in exponent form from \<open>1e21\<close>. For a positive integer
  \<open>x\<close> of \<open>D\<close> digits, the numbers of \<open>k\<close> significant digits nearest to it are the
  two multiples of \<open>10^(D-k)\<close> around it; \<open>shortest\<close> tries them for \<open>k = 1, 2, ...\<close>,
  the nearer one first.\<close>

definition candidates_at :: "nat \<Rightarrow> nat \<Rightarrow> nat list" where
  "candidates_at x u =
     (let s = x div u; lo = s * u; hi = lo + u
      in if x - lo < hi - x then [lo, hi]
         else if hi - x < x - lo then [hi, lo]
         else if even s then [lo, hi] else [hi, lo])"

definition shortest :: "nat \<Rightarrow> nat" where
  "shortest x =
     (let D = length (decimal x);
          cs = concat (map (\<lambda>k. candidates_at x (10 ^ (D - k))) [1 ..< Suc D])
      in case filter (\<lambda>v. to_number (int v) = Num (int x)) cs of
           [] \<Rightarrow> x
         | v # _ \<Rightarrow> v)"

definition digits_of :: "nat \<Rightarrow> string" where
  "digits_of x =
     (let ds = decimal (shortest x); n = length ds
      in if n \<le> 21 then ds
         else (case rev (dropWhile (\<lambda>c. c = CHR ''0'') (rev ds)) of
                 [] \<Rightarrow> ds
               | [d] \<Rightarrow> d # ''e+'' @ decimal (n - 1)
               | d # rest \<Rightarrow> d # CHR ''.'' # rest @ ''e+'' @ decimal (n - 1)))"

definition toString :: "jsnum \<Rightarrow> string" where
  "toString x =
     (case x of
        NaN \<Rightarrow> ''NaN''
      | PosInfinity \<Rightarrow> ''Infinity''
      | NegInfinity \<Rightarrow> ''-Infinity''
      | Num i \<Rightarrow>
          if i = 0 then ''0''
          else if i < 0 then CHR ''-'' # digits_of (nat (- i))
          else digits_of (nat i))"

text \<open>White space as \<open>parseInt\<close> skips it: the ASCII controls and the space, and, in
  their UTF-8 bytes, the no-break space, the Unicode space separators, the line and
  paragraph separators and the byte order mark. \<open>white_prefix\<close> is the number of
  bytes of a white-space character a string starts with.\<close>

definition is_space :: "char \<Rightarrow> bool" where
  "is_space c = (c \<in> set [CHR 0x09, CHR 0x0A, CHR 0x0B, CHR 0x0C, CHR 0x0D, CHR '' ''])"

definition white_prefix :: "string \<Rightarrow> nat" where
  "white_prefix s =
     (if s \<noteq> [] \<and> is_space (hd s) then 1
      else if take 2 s = [CHR 0xC2, CHR 0xA0] then 2
      else if take 2 s = [CHR 0xE2, CHR 0x80] \<and> 2 < length s \<and>
              s ! 2 \<in> set [CHR 0x80, CHR 0x81, CHR 0x82, CHR 0x83, CHR 0x84, CHR 0x85, CHR 0x86,
                            CHR 0x87, CHR 0x88, CHR 0x89, CHR 0x8A, CHR 0xA8, CHR 0xA9, CHR 0xAF]
      then 3
      else if take 3 s \<in> set [[CHR 0xE1, CHR 0x9A, CHR 0x80], [CHR 0xE2, CHR 0x81, CHR 0x9F],
                               [CHR 0xE3, CHR 0x80, CHR 0x80], [CHR 0xEF, CHR 0xBB, CHR 0xBF]]
      then 3
      else 0)"

function skip_white :: "string \<Rightarrow> string" where
  "skip_white s = (if white_prefix s = 0 then s else skip_white (drop (white_prefix s) s))"
  by pat_completeness auto
termination
proof (relation "measure length")
  show "wf (measure length)" by simp
next
  fix s :: string
  assume "white_prefix s \<noteq> 0"
  then have "s \<noteq> []" by (auto simp: white_prefix_def)
  with \<open>white_prefix s \<noteq> 0\<close> show "(drop (white_prefix s) s, s) \<in> measure length" by simp
qed

definition digit_value :: "nat \<Rightarrow> char \<Rightarrow> nat option" where
  "digit_value radix c =
     (case hex_digit c of Some d \<Rightarrow> if d < radix then Some d else None | None \<Rightarrow> None)"

text \<open>\<open>parseInt(s)\<close> without a radix: leading white space and a sign are skipped,
  \<open>0x\<close> selects base 16, and the longest run of digits is read; no digit at all gives
  \<open>NaN\<close>. The value of the digits is rounded to a Number (for more than 20 decimal
  digits the language lets an engine round a little differently).\<close>

definition parseInt :: "string \<Rightarrow> jsnum" where
  "parseInt s =
     (let t = skip_white s;
          neg = (t \<noteq> [] \<and> hd t = CHR ''-'');
          u = (if t \<noteq> [] \<and> (hd t = CHR ''+'' \<or> hd t = CHR ''-'') then tl t else t);
          hex = (startsWith u ''0x'' \<or> startsWith u ''0X'');
          radix = (if hex then 16 else 10);
          v = (if hex then drop 2 u else u);
          ds = takeWhile (\<lambda>c. digit_value radix c \<noteq> None) v;
          m = foldl (\<lambda>acc c. acc * radix + the (digit_value radix c)) 0 ds
      in if ds = [] then NaN else to_number (if neg then - int m else int m))"

section \<open>Configuration\<close>

definition ALLOWED_EXTENSIONS :: "string list" where
  "ALLOWED_EXTENSIONS = [''.jpg'', ''.png'', ''.pdf'', ''.zip'', ''.mp4'', ''.mp3'']"

definition AUTH_TOKEN :: string where
  "AUTH_TOKEN = ''your-secret-token''"

definition DOWNLOAD_EXPIRY :: int where
  "DOWNLOAD_EXPIRY = 31536000"

definition DEBUG :: bool where
  "DEBUG = True"

section \<open>The validator\<close>

definition isValidFile :: "string \<Rightarrow> bool" where
  "isValidFile filename =
     (let ext = toLowerCase (substring filename (lastIndexOf filename CHR ''.''))
      in ext \<in> set ALLOWED_EXTENSIONS)"

section \<open>Data model\<close>

subsection \<open>Headers, bodies and responses\<close>

text \<open>A \<open>Headers\<close> object is an association list under lower-cased names.
  \<open>headers.set(name, value)\<close> strips the white space around the value and throws a
  \<open>TypeError\<close> when a NUL, a line feed or a carriage return is left in it; else it
  replaces the value of the name or adds the name. (The header names the program
  sets are constants and valid.) \<open>get\<close> reads a value.\<close>

type_synonym headers = "(string \<times> string) list"

definition header_put :: "headers \<Rightarrow> string \<Rightarrow> string \<Rightarrow> headers" where
  "header_put h name v = AList.update (toLowerCase name) v h"

definition http_space :: "char \<Rightarrow> bool" where
  "http_space c = (c \<in> set [CHR 0x09, CHR 0x0A, CHR 0x0D, CHR '' ''])"

definition normalize_value :: "string \<Rightarrow> string" where
  "normalize_value v = rev (dropWhile http_space (rev (dropWhile http_space v)))"

definition header_value_ok :: "string \<Rightarrow> bool" where
  "header_value_ok v = (filter (\<lambda>c. c \<in> set [CHR 0x00, CHR 0x0A, CHR 0x0D]) v = [])"

definition headers_set :: "headers \<Rightarrow> string \<Rightarrow> string \<Rightarrow> js_error + headers" where
  "headers_set h name v =
     (if header_value_ok (normalize_value v) then Inr (header_put h name (normalize_value v))
      else Inl (TypeError ''Invalid header value''))"

text \<open>A further \<open>set\<close> on the outcome of earlier ones: an exception thrown earlier
  has already left the sequence.\<close>

definition then_set :: "js_error + headers \<Rightarrow> string \<Rightarrow> string \<Rightarrow> js_error + headers" where
  "then_set r name v = (case r of Inl err \<Rightarrow> Inl err | Inr h \<Rightarrow> headers_set h name v)"

definition headers_get :: "headers \<Rightarrow> string \<Rightarrow> string option" where
  "headers_get h name = map_of (map (\<lambda>(n, v). (toLowerCase n, v)) h) (toLowerCase name)"

text \<open>The \<open>Headers\<close> built from an object literal of the source or copied from
  another \<open>Headers\<close> object: the values are valid as they stand.\<close>

definition headers_of :: "(string \<times> string) list \<Rightarrow> headers" where
  "headers_of entries = fold (\<lambda>(n, v) h. header_put h n v) entries []"

text \<open>The value handed to \<open>JSON.stringify\<close>. A property whose value is
  \<open>undefined\<close> is left out by \<open>JSON.stringify\<close>, and so never listed here; a
  number that is \<open>NaN\<close> or infinite is written \<open>null\<close>.\<close>

datatype json =
    JNull
  | JBool bool
  | JNumber int
  | JString string
  | JArray "json list"
  | JObject "(string \<times> json) list"

fun json_num :: "jsnum \<Rightarrow> json" where
  "json_num NaN = JNull"
| "json_num (Num i) = JNumber i"
| "json_num PosInfinity = JNull"
| "json_num NegInfinity = JNull"

text \<open>The body of a response, by the way the source builds it: \<open>null\<close>, a string
  literal, the string \<open>JSON.stringify\<close> returns for a value, or the byte stream of
  a stored object.\<close>

datatype body = NoBody | Text string | Json json | Stream string

record response =
  resp_status :: nat
  resp_headers :: headers
  resp_body :: body

text \<open>\<open>new Response(body, {status, headers})\<close>; a status that is not given is 200.
  The headers are those the source passes (the platform's own additions, such as a
  default content type for a string body, are not part of the model).\<close>

definition Response :: "body \<Rightarrow> nat \<Rightarrow> headers \<Rightarrow> response" where
  "Response b st h = \<lparr> resp_status = st, resp_headers = h, resp_body = b \<rparr>"

subsection \<open>Requests\<close>

record form_file =
  file_name :: string
  file_bytes :: string

datatype form_value = FormString string | FormFile form_file

text \<open>A request as the handlers read it: the method, \<open>new URL(request.url)\<close> (its
  \<open>pathname\<close>, its \<open>origin\<close>, and its serialisation once the pathname has been
  reassigned, which is the platform's work), the headers, and the outcome of
  \<open>request.formData()\<close> (\<open>None\<close> when the body is not a form and the call
  throws).\<close>

record request =
  req_method :: string
  req_path :: string
  req_origin :: string
  req_href_with_pathname :: "string \<Rightarrow> string"
  req_headers :: headers
  req_form :: "(string \<times> form_value) list option"

subsection \<open>The two stores\<close>

text \<open>The object store and the counter store are external. The model keeps the
  contents of each as an association list, and lets every operation fail: \<open>faults\<close>
  gives, for an operation that throws, the message of its error. A stored object has
  the fields the source reads of it: \<open>body\<close>, \<open>size\<close>, \<open>uploaded\<close>, and
  \<open>headers\<close>, which is \<open>None\<close> for an object that has no such (iterable) field,
  as the objects of the platform's store have none. A listing returns one page: the
  first 1000 entries in the order of their keys. The environment also holds the clock
  (\<open>Date.now()\<close> and the ISO form of the current date) and whether the platform lets
  work that a handler started and did not await run to its end, of which it gives
  no guarantee.\<close>

record r2object =
  obj_body :: string
  obj_size :: nat
  obj_uploaded :: string
  obj_headers :: "headers option"

datatype store_op =
    KvGet string | KvPut string | KvDelete string | KvList
  | R2Get string | R2Put string | R2List

record env =
  media :: "(string \<times> r2object) list"
  ZED_DOWNLOADS :: "(string \<times> string) list"
  faults :: "store_op \<Rightarrow> string option"
  now :: int
  now_iso :: string
  detached_work_finishes :: bool

definition listed :: "(string \<times> 'a) list \<Rightarrow> (string \<times> 'a) list" where
  "listed entries = take 1000 (sort_key fst entries)"

definition kv_get :: "env \<Rightarrow> string \<Rightarrow> js_error + string option" where
  "kv_get e k =
     (case faults e (KvGet k) of
        Some msg \<Rightarrow> Inl (StoreError msg)
      | None \<Rightarrow> Inr (map_of (ZED_DOWNLOADS e) k))"

definition kv_put :: "env \<Rightarrow> string \<Rightarrow> string \<Rightarrow> js_error + env" where
  "kv_put e k v =
     (case faults e (KvPut k) of
        Some msg \<Rightarrow> Inl (StoreError msg)
      | None \<Rightarrow> Inr (e\<lparr>ZED_DOWNLOADS := AList.update k v (ZED_DOWNLOADS e)\<rparr>))"

definition kv_delete :: "env \<Rightarrow> string \<Rightarrow> js_error + env" where
  "kv_delete e k =
     (case faults e (KvDelete k) of
        Some msg \<Rightarrow> Inl (StoreError msg)
      | None \<Rightarrow> Inr (e\<lparr>ZED_DOWNLOADS := AList.delete k (ZED_DOWNLOADS e)\<rparr>))"

definition kv_list :: "env \<Rightarrow> js_error + string list" where
  "kv_list e =
     (case faults e KvList of
        Some msg \<Rightarrow> Inl (StoreError msg)
      | None \<Rightarrow> Inr (map fst (listed (ZED_DOWNLOADS e))))"

definition r2_get :: "env \<Rightarrow> string \<Rightarrow> js_error + r2object option" where
  "r2_get e k =
     (case faults e (R2Get k) of
        Some msg \<Rightarrow> Inl (StoreError msg)
      | None \<Rightarrow> Inr (map_of (media e) k))"

definition r2_put :: "env \<Rightarrow> string \<Rightarrow> r2object \<Rightarrow> js_error + env" where
  "r2_put e k obj =
     (case faults e (R2Put k) of
        Some msg \<Rightarrow> Inl (StoreError msg)
      | None \<Rightarrow> Inr (e\<lparr>media := AList.update k obj (media e)\<rparr>))"

definition r2_list :: "env \<Rightarrow> js_error + (string \<times> r2object) list" where
  "r2_list e =
     (case faults e R2List of
        Some msg \<Rightarrow> Inl (StoreError msg)
      | None \<Rightarrow> Inr (listed (media e)))"

fun error_message :: "js_error \<Rightarrow> string" where
  "error_message URIError = ''URI malformed''"
| "error_message (TypeError msg) = msg"
| "error_message (StoreError msg) = msg"

text \<open>A string or \<open>null\<close> in a condition: true for a non-empty string only.\<close>

fun truthy :: "string option \<Rightarrow> bool" where
  "truthy None = False"
| "truthy (Some s) = (s \<noteq> [])"

text \<open>\<open>a || b\<close> on a string or \<open>null\<close>, and the string a value turns into where
  one is expected (\<open>undefined\<close> reads "undefined").\<close>

fun or_else :: "string option \<Rightarrow> string \<Rightarrow> string" where
  "or_else None d = d"
| "or_else (Some s) d = (if s \<noteq> [] then s else d)"

fun js_String :: "string option \<Rightarrow> string" where
  "js_String None = ''undefined''"
| "js_String (Some s) = s"

section \<open>The handlers of the counting worker\<close>

text \<open>Each handler is the function of the same name in the source. A handler that
  touches a store returns the environment it leaves; a handler that can let an
  exception escape returns \<open>Inl\<close> of it. Debug logging has no effect on the result
  and is left out; \<open>DEBUG\<close> is kept where it decides control flow.\<close>

definition setDownloadHeaders :: "string \<Rightarrow> r2object \<Rightarrow> js_error + headers" where
  "setDownloadHeaders filename originalResponse =
     (let headers = Inr (case obj_headers originalResponse of
                           None \<Rightarrow> []
                         | Some given \<Rightarrow> headers_of given);
          headers = then_set headers ''Content-Disposition''
                      (''attachment; filename='' @ [CHR 0x22] @ filename @ [CHR 0x22]);
          headers = then_set headers ''Cache-Control''
                      (''public, max-age='' @ toString (to_number DOWNLOAD_EXPIRY)
                         @ '', immutable'');
          headers = then_set headers ''Access-Control-Allow-Origin'' ''*'';
          headers = then_set headers ''Access-Control-Allow-Methods'' ''GET, HEAD, OPTIONS'';
          headers = then_set headers ''Access-Control-Allow-Headers''
                      ''Content-Type, Authorization, X-Debug''
      in headers)"

text \<open>The \<open>catch\<close> of \<open>incrementDownloadCount\<close>: the error is thrown again in debug
  mode, otherwise the function ends without a value.\<close>

definition increment_failed :: "js_error \<Rightarrow> env \<Rightarrow> (js_error + jsnum option) \<times> env" where
  "increment_failed err e = (if DEBUG then (Inl err, e) else (Inr None, e))"

definition incrementDownloadCount :: "env \<Rightarrow> string \<Rightarrow> (js_error + jsnum option) \<times> env" where
  "incrementDownloadCount e filename =
     (let key = ''download:'' @ filename in
      case kv_get e key of
        Inl err \<Rightarrow> increment_failed err e
      | Inr currentCount \<Rightarrow>
          (let newCount = (if truthy currentCount
                           then num_add (parseInt (js_String currentCount)) (Num 1)
                           else Num 1)
           in case kv_put e key (toString newCount) of
                Inl err \<Rightarrow> increment_failed err e
              | Inr e' \<Rightarrow> (Inr (Some newCount), e')))"

definition authorized :: "string option \<Rightarrow> bool" where
  "authorized authHeader = (truthy authHeader \<and> authHeader = Some (''Bearer '' @ AUTH_TOKEN))"

definition generateDownloadUrl :: "request \<Rightarrow> env \<Rightarrow> string \<Rightarrow> response" where
  "generateDownloadUrl req e filename =
     (if filename = [] \<or> \<not> isValidFile filename
      then Response (Text ''Invalid file type'') 400 []
      else if AUTH_TOKEN \<noteq> [] \<and> \<not> authorized (headers_get (req_headers req) ''Authorization'')
      then Response (Text ''Unauthorized'') 401 []
      else Response
             (Json (JObject
                [(''success'', JBool True),
                 (''url'', JString (req_href_with_pathname req (''/download/'' @ filename))),
                 (''filename'', JString filename),
                 (''expires'',
                  json_num (num_add (to_number (now e)) (to_number (DOWNLOAD_EXPIRY * 1000)))),
                 (''direct'', JBool True)]))
             200
             (headers_of
                [(''Content-Type'', ''application/json''),
                 (''Access-Control-Allow-Origin'', ''*''),
                 (''Cache-Control'', ''no-cache'')]))"

text \<open>\<open>handleDownload\<close>: everything runs inside one \<open>try\<close>, whose \<open>catch\<close> answers
  500. Once the object is found, the log line that follows evaluates
  \<open>Object.fromEntries(object.headers)\<close> whatever \<open>DEBUG\<close> says, which throws for an
  object without iterable headers. Then the argument of the counter update,
  \<open>decodeURIComponent(filename)\<close>, is evaluated (and may throw); the update itself is
  started and not awaited, its outcome only logged, and it takes effect if the
  platform lets it finish. The headers are set after that, and a value that
  \<open>set\<close> refuses also ends in the \<open>catch\<close>, the update being under way.\<close>

definition handleDownload :: "request \<Rightarrow> env \<Rightarrow> string \<Rightarrow> response \<times> env" where
  "handleDownload req e filename =
     (if filename = [] \<or> \<not> isValidFile filename
      then (Response (Text ''Invalid file type'') 400 [], e)
      else case r2_get e filename of
        Inl err \<Rightarrow> (Response (Text ''Error retrieving file'') 500 [], e)
      | Inr None \<Rightarrow> (Response (Text ''File not found'') 404 [], e)
      | Inr (Some object) \<Rightarrow>
          (case obj_headers object of
             None \<Rightarrow> (Response (Text ''Error retrieving file'') 500 [], e)
           | Some logged \<Rightarrow>
               (case decodeURIComponent filename of
                  Inl err \<Rightarrow> (Response (Text ''Error retrieving file'') 500 [], e)
                | Inr counted \<Rightarrow>
                    (let e' = (if detached_work_finishes e
                               then snd (incrementDownloadCount e counted) else e);
                         headers = setDownloadHeaders filename object;
                         headers =
                           (if headers_get (req_headers req) ''X-Debug'' = Some ''true''
                            then then_set (then_set headers ''X-Debug-Filename'' filename)
                                   ''X-Debug-Count-Key'' (''download:'' @ counted)
                            else headers)
                     in case headers of
                          Inl err \<Rightarrow> (Response (Text ''Error retrieving file'') 500 [], e')
                        | Inr sent \<Rightarrow> (Response (Stream (obj_body object)) 200 sent, e')))))"

text \<open>\<open>handleUpload\<close>. \<open>formData.get\<close> gives the first entry of a name, or \<open>null\<close>.
  The name to store under (\<open>upload_name\<close>, the source's
  \<open>formData.get('filename') || file.name\<close>) is the \<open>filename\<close> entry when that is
  truthy, else \<open>file.name\<close>: a \<open>TypeError\<close> when \<open>file\<close> is \<open>null\<close>,
  \<open>undefined\<close> when it is a string. None of this is inside a \<open>try\<close>.\<close>

datatype name_value = Undefined | NameString string | NameFile form_file

definition form_get :: "(string \<times> form_value) list \<Rightarrow> string \<Rightarrow> form_value option" where
  "form_get formData name = map_of formData name"

fun value_truthy :: "form_value option \<Rightarrow> bool" where
  "value_truthy None = False"
| "value_truthy (Some (FormString s)) = (s \<noteq> [])"
| "value_truthy (Some (FormFile f)) = True"

fun name_of :: "form_value option \<Rightarrow> js_error + name_value" where
  "name_of None = Inl (TypeError ''Cannot read properties of null (reading 'name')'')"
| "name_of (Some (FormString s)) = Inr Undefined"
| "name_of (Some (FormFile f)) = Inr (NameString (file_name f))"

fun as_name :: "form_value \<Rightarrow> name_value" where
  "as_name (FormString s) = NameString s"
| "as_name (FormFile f) = NameFile f"

fun name_truthy :: "name_value \<Rightarrow> bool" where
  "name_truthy Undefined = False"
| "name_truthy (NameString s) = (s \<noteq> [])"
| "name_truthy (NameFile f) = True"

fun payload :: "form_value \<Rightarrow> string" where
  "payload (FormString s) = s"
| "payload (FormFile f) = file_bytes f"

text \<open>What the object store keeps for a \<open>put\<close>: the payload, its size and the
  time, and no \<open>headers\<close> field.\<close>

definition stored_object :: "env \<Rightarrow> form_value \<Rightarrow> r2object" where
  "stored_object e v =
     \<lparr> obj_body = payload v, obj_size = length (payload v),
       obj_uploaded = now_iso e, obj_headers = None \<rparr>"

fun size_field :: "form_value \<Rightarrow> (string \<times> json) list" where
  "size_field (FormString s) = []"
| "size_field (FormFile f) = [(''size'', JNumber (int (length (file_bytes f))))]"

definition upload_name :: "(string \<times> form_value) list \<Rightarrow> js_error + name_value" where
  "upload_name formData =
     (case form_get formData ''filename'' of
        None \<Rightarrow> name_of (form_get formData ''file'')
      | Some named \<Rightarrow>
          if value_truthy (Some named) then Inr (as_name named)
          else name_of (form_get formData ''file''))"

definition handleUpload :: "request \<Rightarrow> env \<Rightarrow> (js_error + response) \<times> env" where
  "handleUpload req e =
     (if \<not> authorized (headers_get (req_headers req) ''Authorization'')
      then (Inr (Response (Text ''Unauthorized'') 401 []), e)
      else case req_form req of
        None \<Rightarrow> (Inl (TypeError ''Unrecognized Content-Type header value''), e)
      | Some formData \<Rightarrow>
          (case upload_name formData of
             Inl err \<Rightarrow> (Inl err, e)
           | Inr filename \<Rightarrow>
               (case form_get formData ''file'' of
                  None \<Rightarrow> (Inr (Response (Text ''No file provided'') 400 []), e)
                | Some file \<Rightarrow>
                    if \<not> (value_truthy (Some file) \<and> name_truthy filename)
                    then (Inr (Response (Text ''No file provided'') 400 []), e)
                    else case filename of
                      NameString name \<Rightarrow>
                        (if \<not> isValidFile name
                         then (Inr (Response (Text ''Invalid file extension'') 400 []), e)
                         else case r2_put e name (stored_object e file) of
                           Inl err \<Rightarrow> (Inr (Response (Text ''Upload failed'') 500 []), e)
                         | Inr e' \<Rightarrow>
                             (Inr (Response
                                (Json (JObject
                                   ([(''success'', JBool True),
                                     (''filename'', JString name),
                                     (''url'', JString (req_origin req @ ''/download/'' @ name))]
                                    @ size_field file
                                    @ [(''stats_url'',
                                        JString (req_origin req @ ''/stats/'' @ name))])))
                                200
                                (headers_of
                                   [(''Content-Type'', ''application/json''),
                                    (''Cache-Control'', ''no-cache'')])), e'))
                    | _ \<Rightarrow> (Inl (TypeError ''filename.lastIndexOf is not a function''), e))))"

text \<open>\<open>listFiles\<close>: one counter read per listed object (\<open>Promise.all\<close> fails when
  any of them does), all inside a \<open>try\<close>.\<close>

fun files_with_counts ::
  "env \<Rightarrow> (string \<times> r2object) list \<Rightarrow> js_error + (json \<times> jsnum) list" where
  "files_with_counts e [] = Inr []"
| "files_with_counts e ((key, obj) # objs) =
     (case kv_get e (''download:'' @ key) of
        Inl err \<Rightarrow> Inl err
      | Inr count \<Rightarrow>
          (case files_with_counts e objs of
             Inl err \<Rightarrow> Inl err
           | Inr rest \<Rightarrow>
               (let downloads = (if truthy count then parseInt (js_String count) else Num 0)
                in Inr ((JObject
                          [(''key'', JString key),
                           (''size'', JNumber (int (obj_size obj))),
                           (''uploaded'', JString (obj_uploaded obj)),
                           (''downloads'', json_num downloads),
                           (''stats_url'', JString (''/stats/'' @ encodeURIComponent key)),
                           (''download_url'', JString (''/download/'' @ encodeURIComponent key))],
                         downloads) # rest))))"

definition listFiles :: "env \<Rightarrow> response" where
  "listFiles e =
     (case r2_list e of
        Inl err \<Rightarrow> Response (Text ''Error listing files'') 500 []
      | Inr objects \<Rightarrow>
          (case files_with_counts e objects of
             Inl err \<Rightarrow> Response (Text ''Error listing files'') 500 []
           | Inr filesWithCounts \<Rightarrow>
               Response
                 (Json (JObject
                    [(''success'', JBool True),
                     (''files'', JArray (map fst filesWithCounts)),
                     (''total_files'', JNumber (int (length filesWithCounts))),
                     (''total_downloads'',
                      json_num (foldl num_add (Num 0) (map snd filesWithCounts)))]))
                 200
                 (headers_of
                    [(''Content-Type'', ''application/json''),
                     (''Access-Control-Allow-Origin'', ''*''),
                     (''Cache-Control'', ''no-cache'')])))"

text \<open>\<open>getAllStats\<close>: the loop over the listed keys, with the \<open>stats\<close> object and
  the running total as accumulators. Assigning a number to the property
  \<open>__proto__\<close> of an object adds no property.\<close>

fun count_entries ::
  "env \<Rightarrow> string list \<Rightarrow> (string \<times> jsnum) list \<Rightarrow> jsnum \<Rightarrow>
     js_error + (string \<times> jsnum) list \<times> jsnum" where
  "count_entries e [] stats totalDownloads = Inr (stats, totalDownloads)"
| "count_entries e (name # names) stats totalDownloads =
     (if startsWith name ''download:''
      then (case kv_get e name of
              Inl err \<Rightarrow> Inl err
            | Inr count \<Rightarrow>
                (let filename = replace name ''download:'' [];
                     downloadCount = parseInt (or_else count ''0'')
                 in count_entries e names
                      (if filename = ''__proto__'' then stats
                       else AList.update filename downloadCount stats)
                      (num_add totalDownloads downloadCount)))
      else count_entries e names stats totalDownloads)"

definition stats_failed :: "js_error \<Rightarrow> response" where
  "stats_failed err =
     Response
       (Json (JObject
          [(''success'', JBool False),
           (''error'', JString (error_message err)),
           (''message'', JString ''Could not retrieve stats'')]))
       500
       (headers_of [(''Content-Type'', ''application/json'')])"

definition getAllStats :: "env \<Rightarrow> response" where
  "getAllStats e =
     (case kv_list e of
        Inl err \<Rightarrow> stats_failed err
      | Inr keys \<Rightarrow>
          (case count_entries e keys [] (Num 0) of
             Inl err \<Rightarrow> stats_failed err
           | Inr (stats, totalDownloads) \<Rightarrow>
               Response
                 (Json (JObject
                    [(''success'', JBool True),
                     (''stats'', JObject (map (\<lambda>(f, n). (f, json_num n)) stats)),
                     (''total_files'', JNumber (int (length stats))),
                     (''total_downloads'', json_num totalDownloads),
                     (''debug_info'', JObject
                        [(''kv_entries'', JNumber (int (length keys))),
                         (''counted_entries'', JNumber (int (length stats)))])]))
                 200
                 (headers_of
                    [(''Content-Type'', ''application/json''),
                     (''Access-Control-Allow-Origin'', ''*''),
                     (''Cache-Control'', ''no-cache'')])))"

definition kv_test_failed :: "js_error \<Rightarrow> response" where
  "kv_test_failed err =
     Response
       (Json (JObject
          [(''success'', JBool False),
           (''kv_test'', JString ''FAILED''),
           (''error'', JString (error_message err)),
           (''message'', JString ''KV is NOT working'')]))
       500
       (headers_of [(''Content-Type'', ''application/json'')])"

fun json_string_or_null :: "string option \<Rightarrow> json" where
  "json_string_or_null None = JNull"
| "json_string_or_null (Some s) = JString s"

definition testKV :: "env \<Rightarrow> response \<times> env" where
  "testKV e =
     (let testKey = ''test_kv_functionality'';
          testValue = ''kv_is_working_'' @ toString (to_number (now e))
      in case kv_put e testKey testValue of
           Inl err \<Rightarrow> (kv_test_failed err, e)
         | Inr e1 \<Rightarrow>
             (case kv_get e1 testKey of
                Inl err \<Rightarrow> (kv_test_failed err, e1)
              | Inr retrievedValue \<Rightarrow>
                  (case kv_delete e1 testKey of
                     Inl err \<Rightarrow> (kv_test_failed err, e1)
                   | Inr e2 \<Rightarrow>
                       (let success = (retrievedValue = Some testValue)
                        in (Response
                              (Json (JObject
                                 [(''success'', JBool success),
                                  (''kv_test'', JString (if success then ''PASSED'' else ''FAILED'')),
                                  (''written'', JString testValue),
                                  (''read'', json_string_or_null retrievedValue),
                                  (''message'',
                                   JString (if success then ''KV is working correctly''
                                            else ''KV read/write mismatch''))]))
                              200
                              (headers_of
                                 [(''Content-Type'', ''application/json''),
                                  (''Cache-Control'', ''no-cache'')]), e2)))))"

text \<open>\<open>resetDownloadCount\<close>: the check of the token comes first, before anything is
  decoded or deleted.\<close>

fun filename_field :: "string option \<Rightarrow> (string \<times> json) list" where
  "filename_field None = []"
| "filename_field (Some s) = [(''filename'', JString s)]"

definition resetDownloadCount :: "env \<Rightarrow> string option \<Rightarrow> string option \<Rightarrow> response \<times> env" where
  "resetDownloadCount e filename authHeader =
     (if \<not> authorized authHeader
      then (Response (Text ''Unauthorized'') 401 [], e)
      else case decodeURIComponent (js_String filename) of
        Inl err \<Rightarrow> (Response (Text ''Error resetting count'') 500 [], e)
      | Inr decoded \<Rightarrow>
          (case kv_delete e (''download:'' @ decoded) of
             Inl err \<Rightarrow> (Response (Text ''Error resetting count'') 500 [], e)
           | Inr e' \<Rightarrow>
               (Response
                  (Json (JObject
                     ([(''success'', JBool True),
                       (''message'', JString (''Download count reset for '' @ js_String filename))]
                      @ filename_field filename)))
                  200
                  (headers_of [(''Content-Type'', ''application/json'')]), e')))"

section \<open>The dispatcher\<close>

text \<open>The \<open>/stats/\<close> route is written inline in \<open>fetch\<close>. Its \<open>try\<close> decodes the
  name and reads the counter; its \<open>catch\<close> decodes the name once more for the
  error payload, outside any \<open>try\<close>.\<close>

definition stats_route :: "env \<Rightarrow> string option \<Rightarrow> js_error + response" where
  "stats_route e filename =
     (if \<not> truthy filename
      then Inr (Response (Text ''Filename required'') 400 [])
      else case (case decodeURIComponent (js_String filename) of
                   Inl err \<Rightarrow> Inl err
                 | Inr decoded \<Rightarrow>
                     (case kv_get e (''download:'' @ decoded) of
                        Inl err \<Rightarrow> Inl err
                      | Inr count \<Rightarrow>
                          Inr (Response
                                 (Json (JObject
                                    [(''success'', JBool True),
                                     (''filename'', JString decoded),
                                     (''downloads'',
                                      if truthy count then json_num (parseInt (js_String count))
                                      else JNumber 0),
                                     (''key'', JString (''download:'' @ decoded)),
                                     (''timestamp'', JString (now_iso e))]))
                                 200
                                 (headers_of
                                    [(''Content-Type'', ''application/json''),
                                     (''Access-Control-Allow-Origin'', ''*''),
                                     (''Cache-Control'', ''no-cache'')])))) of
             Inr r \<Rightarrow> Inr r
           | Inl error \<Rightarrow>
               (case decodeURIComponent (js_String filename) of
                  Inl err \<Rightarrow> Inl err
                | Inr decoded \<Rightarrow>
                    Inr (Response
                           (Json (JObject
                              [(''success'', JBool False),
                               (''filename'', JString decoded),
                               (''downloads'', JNumber 0),
                               (''error'', JString (error_message error)),
                               (''message'', JString ''Could not retrieve stats'')]))
                           200
                           (headers_of
                              [(''Content-Type'', ''application/json''),
                               (''Access-Control-Allow-Origin'', ''*'')]))))"

text \<open>The listing of the counting worker breaks off inside the markup of its root
  page, so the end of its dispatcher is not in the source: the rest of the page, the
  header of the root response and whatever follows the last route.\<close>

text \<open>Modelled from the spec: the static documentation page of the route \<open>/\<close>
  ("returns a static documentation page; no state access"). Only the opening of its
  markup, which the listing shows, is kept.\<close>

definition documentation_page :: string where
  "documentation_page =
     ''<!DOCTYPE html><html><head><title>R2 Direct Download Service</title></head></html>''"

text \<open>Modelled from the spec: the response of the route \<open>/\<close>, the page with the
  content type the base worker \<^verbatim>\<open>index.js\<close> gives its own root page.\<close>

definition documentation_response :: response where
  "documentation_response =
     Response (Text documentation_page) 200 (headers_of [(''Content-Type'', ''text/html'')])"

text \<open>Modelled from the spec: the fall-through of the dispatcher ("any other
  path/method: 404"), with the body the base worker \<^verbatim>\<open>index.js\<close> ends on.\<close>

definition not_found_response :: response where
  "not_found_response = Response (Text ''Not Found'') 404 []"

definition fetch :: "request \<Rightarrow> env \<Rightarrow> (js_error + response) \<times> env" where
  "fetch req e =
     (let path = req_path req; method = req_method req in
      if method = ''OPTIONS''
      then (Inr (Response NoBody 200
                   (headers_of
                      [(''Access-Control-Allow-Origin'', ''*''),
                       (''Access-Control-Allow-Methods'', ''GET, POST, PUT, DELETE, OPTIONS''),
                       (''Access-Control-Allow-Headers'', ''Content-Type, Authorization, X-Debug''),
                       (''Access-Control-Max-Age'', ''86400'')])), e)
      else if startsWith path ''/generate/''
      then (case decodeURIComponent (js_String (element (split path ''/generate/'') 1)) of
              Inl err \<Rightarrow> (Inl err, e)
            | Inr filename \<Rightarrow> (Inr (generateDownloadUrl req e filename), e))
      else if startsWith path ''/download/''
      then (case decodeURIComponent (js_String (element (split path ''/download/'') 1)) of
              Inl err \<Rightarrow> (Inl err, e)
            | Inr filename \<Rightarrow>
                (Inr (fst (handleDownload req e filename)), snd (handleDownload req e filename)))
      else if startsWith path ''/stats/''
      then (stats_route e (element (split path ''/stats/'') 1), e)
      else if path = ''/all-stats'' \<and> method = ''GET''
      then (Inr (getAllStats e), e)
      else if path = ''/debug/kv'' \<and> method = ''GET''
      then (Inr (fst (testKV e)), snd (testKV e))
      else if startsWith path ''/reset-stats/'' \<and> method = ''POST''
      then (let filename = element (split path ''/reset-stats/'') 1;
                authHeader = headers_get (req_headers req) ''Authorization'';
                outcome = resetDownloadCount e filename authHeader
            in (Inr (fst outcome), snd outcome))
      else if path = ''/upload'' \<and> method = ''POST''
      then handleUpload req e
      else if path = ''/files'' \<and> method = ''GET''
      then (Inr (listFiles e), e)
      else if path = ''/'' \<and> method = ''GET''
      then (Inr documentation_response, e)
      else (Inr not_found_response, e))"

text \<open>A sequence of requests served one after the other, each on the environment
  the one before left.\<close>

fun serve :: "request list \<Rightarrow> env \<Rightarrow> (js_error + response) list \<times> env" where
  "serve [] e = ([], e)"
| "serve (req # reqs) e =
     (let (r, e') = fetch req e; (rs, e'') = serve reqs e' in (r # rs, e''))"

section \<open>The base worker\<close>

text \<open>\<^verbatim>\<open>index.js\<close> is the same worker without the counters: its validator, link
  generation and upload are those above (without the counting and the debug headers),
  and its dispatcher has the generate, download, upload, list and root routes only.
  Its file listing differs in shape and stands outside any \<open>try\<close>.\<close>

definition base_listFiles :: "env \<Rightarrow> js_error + response" where
  "base_listFiles e =
     (case r2_list e of
        Inl err \<Rightarrow> Inl err
      | Inr objects \<Rightarrow>
          Inr (Response
                 (Json (JObject
                    [(''files'',
                      JArray (map (\<lambda>(key, obj).
                                JObject
                                  [(''key'', JString key),
                                   (''size'', JNumber (int (obj_size obj))),
                                   (''uploaded'', JString (obj_uploaded obj))]) objects))]))
                 200
                 (headers_of
                    [(''Content-Type'', ''application/json''),
                     (''Access-Control-Allow-Origin'', ''*'')])))"

section \<open>What the properties speak about\<close>

text \<open>A response is JSON with a boolean \<open>success\<close> field; a response is binary when
  its body is the stream of a stored object.\<close>

definition json_field :: "response \<Rightarrow> string \<Rightarrow> json option" where
  "json_field r name =
     (case resp_body r of
        Json (JObject props) \<Rightarrow> map_of props name
      | _ \<Rightarrow> None)"

definition has_success_field :: "response \<Rightarrow> bool" where
  "has_success_field r =
     (case json_field r ''success'' of Some (JBool b) \<Rightarrow> True | _ \<Rightarrow> False)"

definition binary :: "response \<Rightarrow> bool" where
  "binary r = (case resp_body r of Stream bytes \<Rightarrow> True | _ \<Rightarrow> False)"

definition written_by_stringify :: "response \<Rightarrow> bool" where
  "written_by_stringify r = (case resp_body r of Json j \<Rightarrow> True | _ \<Rightarrow> False)"

section \<open>Concrete inputs\<close>

text \<open>A healthy environment with empty stores, a stored object that carries (no)
  headers, and requests as a client would send them; the theorems below are
  exercised on these.\<close>

definition no_faults :: "store_op \<Rightarrow> string option" where
  "no_faults op = None"

definition empty_env :: env where
  "empty_env =
     \<lparr> media = [], ZED_DOWNLOADS = [], faults = no_faults, now = 1700000000000,
       now_iso = ''2023-11-14T22:13:20.000Z'', detached_work_finishes = True \<rparr>"

definition sample_object :: r2object where
  "sample_object =
     \<lparr> obj_body = ''%PDF-1.7'', obj_size = 8, obj_uploaded = ''2023-11-01T00:00:00.000Z'',
       obj_headers = Some [] \<rparr>"

definition env_with_file :: "string \<Rightarrow> env" where
  "env_with_file key = empty_env\<lparr>media := [(key, sample_object)]\<rparr>"

definition sample_request :: "string \<Rightarrow> string \<Rightarrow> headers \<Rightarrow> request" where
  "sample_request m path hs =
     \<lparr> req_method = m, req_path = path, req_origin = ''https://cms.example'',
       req_href_with_pathname = (\<lambda>p. ''https://cms.example'' @ p),
       req_headers = hs, req_form = None \<rparr>"

definition upload_request :: "headers \<Rightarrow> (string \<times> form_value) list \<Rightarrow> request" where
  "upload_request hs formData = (sample_request ''POST'' ''/upload'' hs)\<lparr>req_form := Some formData\<rparr>"

definition counter_down :: "store_op \<Rightarrow> string option" where
  "counter_down op =
     (case op of
        KvGet k \<Rightarrow> Some ''KV unavailable''
      | KvPut k \<Rightarrow> Some ''KV unavailable''
      | KvDelete k \<Rightarrow> Some ''KV unavailable''
      | KvList \<Rightarrow> Some ''KV unavailable''
      | _ \<Rightarrow> None)"

section \<open>Facts about the built-ins\<close>

declare decimal.simps [simp del]
declare bit_length.simps [simp del]
declare skip_white.simps [simp del]

lemma lastIndexOf_from_absent:
  "c \<notin> set s \<Longrightarrow> lastIndexOf_from c s i found = found"
  by (induction s arbitrary: i found) auto

lemma lower_char_dot: "lower_char c = CHR ''.'' \<Longrightarrow> c = CHR ''.''"
  by (simp add: lower_char_def split: if_splits)

lemma toLowerCase_dotless:
  "CHR ''.'' \<notin> set s \<Longrightarrow> \<not> CHR ''.'' \<in> set (toLowerCase s)"
proof
  assume a: "CHR ''.'' \<notin> set s" and b: "CHR ''.'' \<in> set (toLowerCase s)"
  from b obtain c where "c \<in> set s" "lower_char c = CHR ''.''"
    by (auto simp: toLowerCase_def)
  with a show False
    using lower_char_dot by blast
qed

lemma allowed_has_dot: "ext \<in> set ALLOWED_EXTENSIONS \<Longrightarrow> CHR ''.'' \<in> set ext"
  by (auto simp: ALLOWED_EXTENSIONS_def)

lemma isValidFile_dotless: "CHR ''.'' \<notin> set filename \<Longrightarrow> \<not> isValidFile filename"
  using toLowerCase_dotless [of filename] allowed_has_dot [of "toLowerCase filename"]
  by (auto simp: isValidFile_def lastIndexOf_def lastIndexOf_from_absent substring_def)

text \<open>Decimal digits: \<open>parseInt\<close> reads back what \<open>toString\<close> writes.\<close>

lemma digit_value_table: "\<forall>d \<in> set [0 ..< 10]. digit_value 10 (digit_char d) = Some d"
  by code_simp

lemma digit_value_digit_char: "d < 10 \<Longrightarrow> digit_value 10 (digit_char d) = Some d"
  using digit_value_table by simp

lemma digit_char_table: "\<forall>d \<in> set [0 ..< 10]. digit_char d \<in> set ''0123456789''"
  by code_simp

lemma digit_char_in: "digit_char d \<in> set ''0123456789''"
proof -
  have "d mod 10 < 10" by simp
  then have "digit_char (d mod 10) \<in> set ''0123456789''"
    using digit_char_table by (simp del: set_simps)
  then show ?thesis by (simp add: digit_char_def del: set_simps)
qed

lemma decimal_digit_table:
  "\<forall>c \<in> set ''0123456789''.
     digit_value 10 c \<noteq> None \<and> \<not> is_space c
     \<and> c \<notin> set [CHR 0xC2, CHR 0xE1, CHR 0xE2, CHR 0xE3, CHR 0xEF] \<and> c \<noteq> CHR ''-'' \<and> c \<noteq> CHR ''+''
     \<and> c \<noteq> CHR ''x'' \<and> c \<noteq> CHR ''X''"
  by code_simp

lemma decimal_digits: "set (decimal n) \<subseteq> set ''0123456789''"
proof -
  define D where "D = set ''0123456789''"
  have dc: "digit_char d \<in> D" for d
    unfolding D_def by (rule digit_char_in)
  have "set (decimal n) \<subseteq> D"
  proof (induction n rule: decimal.induct)
    case (1 n)
    show ?case
    proof (cases "n < 10")
      case True
      then show ?thesis using dc by (simp add: decimal.simps [of n])
    next
      case False
      with 1 dc show ?thesis by (simp add: decimal.simps [of n])
    qed
  qed
  then show ?thesis unfolding D_def .
qed

lemma decimal_nonempty: "decimal n \<noteq> []"
  by (simp add: decimal.simps [of n])

lemma decimal_value:
  "foldl (\<lambda>acc c. acc * 10 + the (digit_value 10 c)) 0 (decimal n) = n"
proof (induction n rule: decimal.induct)
  case (1 n)
  show ?case
  proof (cases "n < 10")
    case True
    then show ?thesis by (simp add: decimal.simps [of n] digit_value_digit_char)
  next
    case False
    with 1 show ?thesis
      by (simp add: decimal.simps [of n] digit_value_digit_char)
  qed
qed

text \<open>Rounding: the integers up to \<open>2^53\<close> are Numbers, and are printed as their
  decimal digits.\<close>

lemma bit_length_0: "bit_length 0 = 0"
  by (simp add: bit_length.simps [of 0])

lemma bit_length_pos: "0 < m \<Longrightarrow> bit_length m = Suc (bit_length (m div 2))"
  by (simp add: bit_length.simps [of m])

lemma bit_length_le: "m < 2 ^ k \<Longrightarrow> bit_length m \<le> k"
proof (induction k arbitrary: m)
  case 0
  then show ?case by (simp add: bit_length_0)
next
  case (Suc k)
  have "m div 2 < 2 ^ k" using Suc.prems by auto
  from Suc.IH [OF this] show ?case
    by (cases "m = 0") (simp_all add: bit_length_0 bit_length_pos)
qed

lemma bit_length_lower: "0 < m \<Longrightarrow> 2 ^ (bit_length m - Suc 0) \<le> m"
proof (induction m rule: bit_length.induct)
  case (1 m)
  show ?case
  proof (cases "m div 2 = 0")
    case True
    with 1 show ?thesis by (simp add: bit_length_pos bit_length_0)
  next
    case False
    then have pos: "0 < m div 2" by simp
    have "bit_length (m div 2) \<noteq> 0"
      using pos by (simp add: bit_length_pos)
    then have eq: "bit_length m - Suc 0 = Suc (bit_length (m div 2) - Suc 0)"
      using 1 by (simp add: bit_length_pos [of m])
    have "2 ^ (bit_length (m div 2) - Suc 0) \<le> m div 2"
      using 1 pos by simp
    then have "2 * 2 ^ (bit_length (m div 2) - Suc 0) \<le> m" by linarith
    then show ?thesis unfolding eq by simp
  qed
qed

lemma bit_length_ge: "2 ^ k \<le> m \<Longrightarrow> Suc k \<le> bit_length m"
proof (induction k arbitrary: m)
  case 0
  then show ?case by (simp add: bit_length_pos)
next
  case (Suc k)
  have "2 ^ k \<le> m div 2" using Suc.prems by auto
  moreover have "0 < m" using Suc.prems by (cases m) auto
  ultimately show ?case using Suc.IH [of "m div 2"] by (simp add: bit_length_pos)
qed

lemma round_nat_small: "m < 9007199254740992 \<Longrightarrow> round_nat m = m"
  using bit_length_le [of m 53] by (simp add: round_nat_def)

lemma round_nat_big:
  assumes "9007199254740992 \<le> m"
  shows "9007199254740992 \<le> round_nat m"
proof -
  define e where "e = bit_length m - 53"
  have b: "54 \<le> bit_length m" using bit_length_ge [of 53 m] assms by simp
  then have e: "0 < e" "bit_length m - Suc 0 = 52 + e" by (simp_all add: e_def)
  have "0 < m" using assms by (cases m) auto
  from bit_length_lower [OF this] have low: "2 ^ (52 + e) \<le> m" unfolding e(2) .
  have "2 ^ 52 * 2 ^ e \<le> m" using low by (simp add: power_add)
  then have q: "2 ^ 52 \<le> m div 2 ^ e"
    by (simp add: less_eq_div_iff_mult_less_eq)
  have "2 ^ 53 \<le> (2::nat) ^ 52 * 2 ^ e"
  proof -
    have "(2::nat) ^ 1 \<le> 2 ^ e" using e(1) by (intro power_increasing) simp_all
    then have "(2::nat) ^ 52 * 2 ^ 1 \<le> 2 ^ 52 * 2 ^ e" by (rule mult_le_mono2)
    then show ?thesis by simp
  qed
  also have "\<dots> \<le> (m div 2 ^ e) * 2 ^ e" using q by (rule mult_le_mono1)
  finally have base: "2 ^ 53 \<le> (m div 2 ^ e) * 2 ^ e" .
  have "(m div 2 ^ e) * 2 ^ e \<le> (m div 2 ^ e + 1) * 2 ^ e" by simp
  with base have up: "2 ^ 53 \<le> (m div 2 ^ e + 1) * 2 ^ e" by linarith
  have "2 ^ 53 \<le> round_nat m"
    using base up e(1) unfolding round_nat_def Let_def e_def [symmetric] by auto
  then show ?thesis by simp
qed

lemma bit_length_2_53: "bit_length 9007199254740992 = 54"
  by (simp add: bit_length.simps)

lemma round_nat_2_53: "round_nat 9007199254740992 = 9007199254740992"
  by (simp add: round_nat_def bit_length_2_53)

lemma round_nat_safe: "m \<le> 9007199254740992 \<Longrightarrow> round_nat m = m"
  using round_nat_small [of m] round_nat_2_53 by (cases "m = 9007199254740992") simp_all

lemma to_number_safe: "m \<le> 9007199254740992 \<Longrightarrow> to_number (int m) = Num (int m)"
proof -
  assume a: "m \<le> 9007199254740992"
  have "m < 2 ^ 54" using a by simp
  also have "(2::nat) ^ 54 \<le> 2 ^ 1024" by (rule power_increasing) simp_all
  finally have "m < 2 ^ 1024" .
  from bit_length_le [OF this] round_nat_safe [OF a] show ?thesis
    by (simp add: to_number_def)
qed

lemma to_number_nat_cases:
  "to_number (int v) = Num (int (round_nat v)) \<or> to_number (int v) = PosInfinity"
  by (simp add: to_number_def Let_def)

lemma rounds_to_small:
  assumes "x < 9007199254740992" and "to_number (int v) = Num (int x)"
  shows "v = x"
proof (cases "v < 9007199254740992")
  case True
  then have "to_number (int v) = Num (int v)" by (simp add: to_number_safe)
  with assms(2) show ?thesis by simp
next
  case False
  then have "9007199254740992 \<le> round_nat v" by (simp add: round_nat_big)
  moreover have "round_nat v = x"
    using assms(2) to_number_nat_cases [of v] by auto
  ultimately show ?thesis using assms(1) by simp
qed

lemma shortest_small: "x < 9007199254740992 \<Longrightarrow> shortest x = x"
proof -
  assume x: "x < 9007199254740992"
  define cs where "cs = concat (map (\<lambda>k. candidates_at x (10 ^ (length (decimal x) - k)))
      [1 ..< Suc (length (decimal x))])"
  have "\<forall>v \<in> set (filter (\<lambda>v. to_number (int v) = Num (int x)) cs). v = x"
    using rounds_to_small [OF x] by auto
  then show ?thesis
    unfolding shortest_def Let_def cs_def [symmetric]
    by (cases "filter (\<lambda>v. to_number (int v) = Num (int x)) cs") auto
qed

lemma length_decimal: "x < 10 ^ Suc n \<Longrightarrow> length (decimal x) \<le> Suc n"
proof (induction n arbitrary: x)
  case 0
  then show ?case by (simp add: decimal.simps [of x])
next
  case (Suc n)
  show ?case
  proof (cases "x < 10")
    case True
    then show ?thesis by (simp add: decimal.simps [of x])
  next
    case False
    have "x div 10 < 10 ^ Suc n" using Suc.prems by auto
    from Suc.IH [OF this] False show ?thesis by (simp add: decimal.simps [of x])
  qed
qed

lemma digits_of_small: "x < 9007199254740992 \<Longrightarrow> digits_of x = decimal x"
proof -
  assume x: "x < 9007199254740992"
  have "x < 10 ^ Suc 15" using x by simp
  from length_decimal [OF this] have "length (decimal x) \<le> 21" by simp
  then show ?thesis by (simp add: digits_of_def shortest_small [OF x])
qed

lemma decimal_0: "decimal 0 = ''0''"
  by (simp add: decimal.simps digit_char_def)

lemma decimal_2_53: "decimal 9007199254740992 = ''9007199254740992''"
  by (simp add: decimal.simps digit_char_def)

lemma to_number_eval:
  "to_number (numeral w) =
     (let m = round_nat (numeral w)
      in if 1024 < bit_length m then PosInfinity else Num (int m))"
  by (simp add: to_number_def Let_def)

lemma shortest_2_53: "shortest 9007199254740992 = 9007199254740992"
proof -
  have len: "length (decimal 9007199254740992) = 16"
    by (simp add: decimal_2_53)
  have cs: "concat (map (\<lambda>k. candidates_at 9007199254740992 (10 ^ (16 - k))) [1 ..< Suc 16])
      = [9000000000000000, 10000000000000000, 9000000000000000, 9100000000000000,
         9010000000000000, 9000000000000000, 9007000000000000, 9008000000000000,
         9007200000000000, 9007100000000000, 9007200000000000, 9007190000000000,
         9007199000000000, 9007200000000000, 9007199300000000, 9007199200000000,
         9007199250000000, 9007199260000000, 9007199255000000, 9007199254000000,
         9007199254700000, 9007199254800000, 9007199254740000, 9007199254750000,
         9007199254741000, 9007199254740000, 9007199254741000, 9007199254740900,
         9007199254740990, 9007199254741000, 9007199254740992, 9007199254740993]"
    by (simp add: upt_rec candidates_at_def Let_def)
  show ?thesis
    unfolding shortest_def Let_def len cs
    by (simp add: to_number_eval round_nat_def bit_length.simps Let_def)
qed

lemma toString_2_53: "toString (Num 9007199254740992) = ''9007199254740992''"
  by (simp add: toString_def digits_of_def shortest_2_53 decimal_2_53)

lemma toString_safe: "n \<le> 9007199254740992 \<Longrightarrow> toString (Num (int n)) = decimal n"
proof (cases "n = 9007199254740992")
  case True
  then show ?thesis using toString_2_53 decimal_2_53 by simp
next
  case False
  assume "n \<le> 9007199254740992"
  with False have "n < 9007199254740992" by simp
  then show ?thesis
    by (cases "n = 0") (simp_all add: toString_def digits_of_small decimal_0)
qed

text \<open>Decimal digits are read back: \<open>parseInt\<close> of the digits of \<open>n\<close> is \<open>n\<close>
  rounded, which is \<open>n\<close> itself up to \<open>2^53\<close>.\<close>

lemma white_prefix_digit: "c \<in> set ''0123456789'' \<Longrightarrow> white_prefix (c # cs) = 0"
proof -
  assume "c \<in> set ''0123456789''"
  with decimal_digit_table
  have "\<not> is_space c \<and> c \<notin> set [CHR 0xC2, CHR 0xE1, CHR 0xE2, CHR 0xE3, CHR 0xEF]"
    by blast
  then show ?thesis by (simp add: white_prefix_def)
qed

lemma parseInt_digits:
  assumes "ds \<noteq> []" and "set ds \<subseteq> set ''0123456789''"
  shows "parseInt ds = to_number (int (foldl (\<lambda>acc c. acc * 10 + the (digit_value 10 c)) 0 ds))"
proof -
  obtain c cs where ds: "ds = c # cs" using assms(1) by (cases ds) auto
  have digit: "digit_value 10 x \<noteq> None \<and> x \<noteq> CHR ''-'' \<and> x \<noteq> CHR ''+''
      \<and> x \<noteq> CHR ''x'' \<and> x \<noteq> CHR ''X''" if "x \<in> set ds" for x
    using that assms(2) decimal_digit_table by blast
  have c: "c \<noteq> CHR ''-''" "c \<noteq> CHR ''+''"
    using digit [of c] by (simp_all add: ds)
  have nohex: "\<not> startsWith ds ''0x''" "\<not> startsWith ds ''0X''"
  proof -
    have "x \<in> set ds" if "startsWith ds [CHR ''0'', x]" for x
      using that by (cases cs) (auto simp: startsWith_def ds)
    with digit show "\<not> startsWith ds ''0x''" "\<not> startsWith ds ''0X''" by blast+
  qed
  have all: "takeWhile (\<lambda>c. digit_value 10 c \<noteq> None) ds = ds"
    using digit by (simp add: takeWhile_eq_all_conv)
  have "white_prefix ds = 0"
    unfolding ds using assms(2) by (intro white_prefix_digit) (simp add: ds)
  then have t: "skip_white ds = ds"
    by (simp add: skip_white.simps [of ds])
  show ?thesis
    unfolding parseInt_def Let_def t
    using nohex all c assms(1) by (simp add: ds)
qed

lemma parseInt_decimal_rounds: "parseInt (decimal n) = to_number (int n)"
  using parseInt_digits [OF decimal_nonempty decimal_digits] by (simp add: decimal_value)

lemma parseInt_decimal: "n \<le> 9007199254740992 \<Longrightarrow> parseInt (decimal n) = Num (int n)"
  by (simp add: parseInt_decimal_rounds to_number_safe)

lemma to_number_after_2_53: "to_number 9007199254740993 = Num 9007199254740992"
  by (simp add: to_number_eval round_nat_def bit_length.simps Let_def)

lemma decimal_1: "decimal (Suc 0) = ''1''"
  by (simp add: decimal.simps digit_char_def)

lemma decimal_41: "decimal 41 = ''41''"
  by (simp add: decimal.simps digit_char_def)

lemma decimal_42: "decimal 42 = ''42''"
  by (simp add: decimal.simps digit_char_def)

lemma toString_1: "toString (Num 1) = ''1''"
  using toString_safe [of 1] by (simp add: decimal_1)

lemma to_number_1: "to_number 1 = Num 1"
  using to_number_safe [of 1] by simp

lemma num_add_one:
  "n < 9007199254740992 \<Longrightarrow> num_add (Num (int n)) (Num 1) = Num (int (Suc n))"
  using to_number_safe [of "Suc n"] by (simp add: add.commute)

lemma max_age: "toString (to_number DOWNLOAD_EXPIRY) = ''31536000''"
proof -
  have "to_number DOWNLOAD_EXPIRY = Num (int 31536000)"
    using to_number_safe [of 31536000] by (simp add: DOWNLOAD_EXPIRY_def)
  then show ?thesis
    using toString_safe [of 31536000] by (simp add: decimal.simps digit_char_def)
qed

section \<open>The validator rejects a name without a dot\<close>

text \<open>
  Claim C4. For every filename that contains no \<open>.\<close> the validator returns false:
  \<open>lastIndexOf\<close> gives \<open>-1\<close>, \<open>substring(-1)\<close> is the whole name (no crash), and no
  allowed extension is free of a dot. So no endpoint that validates accepts such a
  name: link generation and download answer 400 before anything else, and an upload
  whose name resolves to it answers 400 (or 401 without the token) and stores nothing.
\<close>

theorem dotless_filename_rejected:
  assumes "CHR ''.'' \<notin> set filename"
  shows "\<not> isValidFile filename
       \<and> generateDownloadUrl req e filename = Response (Text ''Invalid file type'') 400 []
       \<and> handleDownload req e filename = (Response (Text ''Invalid file type'') 400 [], e)
       \<and> (req_form up = Some formData \<and> upload_name formData = Inr (NameString filename)
            \<longrightarrow> (\<exists>r. handleUpload up e = (Inr r, e)
                    \<and> (resp_status r = 400 \<or> resp_status r = 401)))"
proof -
  have inv: "\<not> isValidFile filename"
    using assms by (rule isValidFile_dotless)
  have gen: "generateDownloadUrl req e filename = Response (Text ''Invalid file type'') 400 []"
    using inv by (simp add: generateDownloadUrl_def)
  have dl: "handleDownload req e filename = (Response (Text ''Invalid file type'') 400 [], e)"
    using inv by (simp add: handleDownload_def)
  have upl: "\<exists>r. handleUpload up e = (Inr r, e) \<and> (resp_status r = 400 \<or> resp_status r = 401)"
    if "req_form up = Some formData" "upload_name formData = Inr (NameString filename)"
    using that inv
    by (auto simp: handleUpload_def Response_def split: option.splits)
  from inv gen dl upl show ?thesis by blast
qed

theorem dotless_filename_rejected_witness:
  "CHR ''.'' \<notin> set ''README''
   \<and> \<not> isValidFile ''README''
   \<and> generateDownloadUrl (sample_request ''GET'' ''/generate/README'' []) empty_env ''README''
       = Response (Text ''Invalid file type'') 400 []
   \<and> handleDownload (sample_request ''GET'' ''/download/README'' []) empty_env ''README''
       = (Response (Text ''Invalid file type'') 400 [], empty_env)
   \<and> (\<exists>r. handleUpload
             (upload_request [(''authorization'', ''Bearer your-secret-token'')]
                [(''file'', FormFile \<lparr>file_name = ''README'', file_bytes = ''hello''\<rparr>)])
             empty_env = (Inr r, empty_env)
          \<and> (resp_status r = 400 \<or> resp_status r = 401))"
proof -
  have name: "upload_name [(''file'', FormFile \<lparr>file_name = ''README'', file_bytes = ''hello''\<rparr>)]
      = Inr (NameString ''README'')"
    by (simp add: upload_name_def form_get_def)
  have form: "req_form (upload_request [(''authorization'', ''Bearer your-secret-token'')]
                [(''file'', FormFile \<lparr>file_name = ''README'', file_bytes = ''hello''\<rparr>)])
      = Some [(''file'', FormFile \<lparr>file_name = ''README'', file_bytes = ''hello''\<rparr>)]"
    by (simp add: upload_request_def sample_request_def)
  have dotless: "CHR ''.'' \<notin> set ''README''"
    by simp
  from dotless_filename_rejected [OF dotless,
      of "sample_request ''GET'' ''/generate/README'' []" empty_env
         "upload_request [(''authorization'', ''Bearer your-secret-token'')]
            [(''file'', FormFile \<lparr>file_name = ''README'', file_bytes = ''hello''\<rparr>)]"
         "[(''file'', FormFile \<lparr>file_name = ''README'', file_bytes = ''hello''\<rparr>)]"]
    dotless_filename_rejected [OF dotless,
      of "sample_request ''GET'' ''/download/README'' []" empty_env]
    name form dotless
  show ?thesis by blast
qed

section \<open>The counter increment\<close>

text \<open>
  Claim C7, as stated, fails from \<open>2^53\<close> on: the count is a double, and
  \<open>2^53 + 1\<close> is rounded back to \<open>2^53\<close>. From the stored string
  "9007199254740992", with the counter store answering, the increment returns
  9007199254740992 and stores the same string again, not "9007199254740993": the
  counter no longer moves.
\<close>

theorem increment_stalls_at_2_53:
  "faults (empty_env\<lparr>ZED_DOWNLOADS := [(''download:a.pdf'', ''9007199254740992'')]\<rparr>)
       (KvGet (''download:'' @ ''a.pdf'')) = None
   \<and> faults (empty_env\<lparr>ZED_DOWNLOADS := [(''download:a.pdf'', ''9007199254740992'')]\<rparr>)
       (KvPut (''download:'' @ ''a.pdf'')) = None
   \<and> map_of (ZED_DOWNLOADS (empty_env\<lparr>ZED_DOWNLOADS := [(''download:a.pdf'', ''9007199254740992'')]\<rparr>))
         (''download:'' @ ''a.pdf'') = Some (toString (Num (int 9007199254740992)))
   \<and> incrementDownloadCount
         (empty_env\<lparr>ZED_DOWNLOADS := [(''download:a.pdf'', ''9007199254740992'')]\<rparr>) ''a.pdf''
       = (Inr (Some (Num 9007199254740992)),
          empty_env\<lparr>ZED_DOWNLOADS := [(''download:a.pdf'', ''9007199254740992'')]\<rparr>)
   \<and> Num 9007199254740992 \<noteq> Num (int 9007199254740992 + 1)
   \<and> decimal (9007199254740992 + 1) = ''9007199254740993''"
proof -
  have p: "parseInt ''9007199254740992'' = Num 9007199254740992"
    using parseInt_decimal [of 9007199254740992] by (simp add: decimal_2_53)
  have d: "decimal 9007199254740993 = ''9007199254740993''"
    by (simp add: decimal.simps digit_char_def)
  show ?thesis
    by (simp add: empty_env_def no_faults_def incrementDownloadCount_def kv_get_def kv_put_def
        p d to_number_after_2_53 toString_2_53)
qed

text \<open>
  Claim C7, amended. With the counter store answering, \<open>incrementDownloadCount\<close> reads
  the value stored under \<open>download:\<close> + filename, takes an absent key as 0, adds 1
  and writes the result back as its decimal string: from an absent key it stores "1",
  and from the stored string of a count \<open>n\<close> below \<open>2^53\<close> it stores the string of
  \<open>n + 1\<close>, these strings being the decimal digits of the numbers; nothing else in
  the environment changes.
\<close>

theorem increment_adds_one:
  assumes "faults e (KvGet (''download:'' @ filename)) = None"
      and "faults e (KvPut (''download:'' @ filename)) = None"
      and "n < 2 ^ 53"
  shows "(map_of (ZED_DOWNLOADS e) (''download:'' @ filename) = None \<longrightarrow>
            incrementDownloadCount e filename =
              (Inr (Some (Num 1)),
               e\<lparr>ZED_DOWNLOADS := AList.update (''download:'' @ filename) ''1'' (ZED_DOWNLOADS e)\<rparr>))
       \<and> (map_of (ZED_DOWNLOADS e) (''download:'' @ filename) = Some (toString (Num (int n))) \<longrightarrow>
            incrementDownloadCount e filename =
              (Inr (Some (Num (int n + 1))),
               e\<lparr>ZED_DOWNLOADS :=
                    AList.update (''download:'' @ filename) (toString (Num (int n + 1)))
                      (ZED_DOWNLOADS e)\<rparr>))
       \<and> toString (Num (int n)) = decimal n
       \<and> toString (Num (int n + 1)) = decimal (n + 1)"
proof (intro conjI impI)
  assume "map_of (ZED_DOWNLOADS e) (''download:'' @ filename) = None"
  with assms(1,2) show "incrementDownloadCount e filename =
      (Inr (Some (Num 1)),
       e\<lparr>ZED_DOWNLOADS := AList.update (''download:'' @ filename) ''1'' (ZED_DOWNLOADS e)\<rparr>)"
    by (simp add: incrementDownloadCount_def kv_get_def kv_put_def toString_1)
next
  assume stored: "map_of (ZED_DOWNLOADS e) (''download:'' @ filename) = Some (toString (Num (int n)))"
  have n: "n < 9007199254740992" using assms(3) by simp
  have read: "kv_get e (''download:'' @ filename) = Inr (Some (decimal n))"
    using assms(1) stored n by (simp add: kv_get_def toString_safe)
  have new: "num_add (parseInt (decimal n)) (Num 1) = Num (int n + 1)"
    using n num_add_one [OF n] by (simp add: parseInt_decimal add.commute)
  show "incrementDownloadCount e filename =
      (Inr (Some (Num (int n + 1))),
       e\<lparr>ZED_DOWNLOADS :=
            AList.update (''download:'' @ filename) (toString (Num (int n + 1))) (ZED_DOWNLOADS e)\<rparr>)"
    using assms(2) read new decimal_nonempty [of n]
    by (simp add: incrementDownloadCount_def kv_put_def Let_def)
next
  show "toString (Num (int n)) = decimal n"
    using assms(3) by (intro toString_safe) simp
next
  have "toString (Num (int (n + 1))) = decimal (n + 1)"
    using assms(3) by (intro toString_safe) simp
  then show "toString (Num (int n + 1)) = decimal (n + 1)"
    by (simp add: add.commute)
qed

theorem increment_adds_one_witness:
  "faults (empty_env\<lparr>ZED_DOWNLOADS := [(''download:a.pdf'', ''41'')]\<rparr>)
       (KvGet (''download:'' @ ''a.pdf'')) = None
   \<and> (41 :: nat) < 2 ^ 53
   \<and> map_of (ZED_DOWNLOADS (empty_env\<lparr>ZED_DOWNLOADS := [(''download:a.pdf'', ''41'')]\<rparr>))
         (''download:'' @ ''a.pdf'') = Some (toString (Num (int 41)))
   \<and> incrementDownloadCount (empty_env\<lparr>ZED_DOWNLOADS := [(''download:a.pdf'', ''41'')]\<rparr>) ''a.pdf''
       = (Inr (Some (Num 42)), empty_env\<lparr>ZED_DOWNLOADS := [(''download:a.pdf'', ''42'')]\<rparr>)
   \<and> map_of (ZED_DOWNLOADS empty_env) (''download:'' @ ''a.pdf'') = None
   \<and> incrementDownloadCount empty_env ''a.pdf''
       = (Inr (Some (Num 1)), empty_env\<lparr>ZED_DOWNLOADS := [(''download:a.pdf'', ''1'')]\<rparr>)
   \<and> toString (Num (int 41 + 1)) = ''42''"
proof -
  have s41: "toString (Num 41) = ''41''"
    using toString_safe [of 41] by (simp add: decimal_41)
  have s42: "toString (Num 42) = ''42''"
    using toString_safe [of 42] by (simp add: decimal_42)
  show ?thesis
    using increment_adds_one [of "empty_env\<lparr>ZED_DOWNLOADS := [(''download:a.pdf'', ''41'')]\<rparr>" "''a.pdf''" 41]
          increment_adds_one [of empty_env "''a.pdf''" 0]
    by (simp add: empty_env_def no_faults_def s41 s42 decimal_41 decimal_42 decimal_0 decimal_1)
qed

section \<open>Evaluated inputs\<close>

text \<open>Values of the string built-ins on the paths and names used below.\<close>

lemma split_stats_song: "split ''/stats/song.mp3'' ''/stats/'' = [[], ''song.mp3'']"
  by code_simp

lemma decode_song: "decodeURIComponent ''song.mp3'' = Inr ''song.mp3''"
  by code_simp

lemma valid_a_pdf: "isValidFile ''a.pdf''"
  by code_simp

lemma decode_a_pdf: "decodeURIComponent ''a.pdf'' = Inr ''a.pdf''"
  by code_simp

lemma split_download_a_pdf: "split ''/download/a.pdf'' ''/download/'' = [[], ''a.pdf'']"
  by code_simp

lemma split_download_percent:
  "split ''/download/100%25.pdf'' ''/download/'' = [[], ''100%25.pdf'']"
  by code_simp

lemma decode_percent_once: "decodeURIComponent ''100%25.pdf'' = Inr ''100%.pdf''"
  by code_simp

lemma decode_percent_twice: "decodeURIComponent ''100%.pdf'' = Inl URIError"
  by code_simp

lemma valid_percent: "isValidFile ''100%.pdf''"
  by code_simp

lemma split_download_song:
  "split ''/download/My%2520Song.mp3'' ''/download/'' = [[], ''My%2520Song.mp3'']"
  by code_simp

lemma split_stats_escaped_song:
  "split ''/stats/My%2520Song.mp3'' ''/stats/'' = [[], ''My%2520Song.mp3'']"
  by code_simp

lemma decode_song_once: "decodeURIComponent ''My%2520Song.mp3'' = Inr ''My%20Song.mp3''"
  by code_simp

lemma decode_song_twice: "decodeURIComponent ''My%20Song.mp3'' = Inr ''My Song.mp3''"
  by code_simp

lemma valid_song: "isValidFile ''My%20Song.mp3''"
  by code_simp

lemma auth_header_sample:
  "headers_get [(''authorization'', ''Bearer your-secret-token'')] ''Authorization''
     = Some ''Bearer your-secret-token''"
  by (simp add: headers_get_def toLowerCase_def lower_char_def)

lemma not_authorized: "h \<noteq> Some (''Bearer '' @ AUTH_TOKEN) \<Longrightarrow> \<not> authorized h"
  by (simp add: authorized_def)

section \<open>Headers\<close>

text \<open>Header names are kept in lower case, so a header that was set is read back
  whatever headers were there before.\<close>

lemma lower_char_idem_all: "\<forall>c. lower_char (lower_char c) = lower_char c"
  by code_simp

lemma toLowerCase_idem: "toLowerCase (toLowerCase s) = toLowerCase s"
  using lower_char_idem_all by (simp add: toLowerCase_def)

lemma header_put_lower:
  assumes "\<forall>n \<in> fst ` set h. toLowerCase n = n"
  shows "\<forall>n \<in> fst ` set (header_put h name v). toLowerCase n = n"
proof -
  have sub: "fst ` set (AList.update k v h) \<subseteq> insert k (fst ` set h)" for k
    by (induction h) auto
  show ?thesis
  proof
    fix n
    assume "n \<in> fst ` set (header_put h name v)"
    with sub [of "toLowerCase name"] have "n = toLowerCase name \<or> n \<in> fst ` set h"
      unfolding header_put_def by blast
    then show "toLowerCase n = n"
    proof
      assume "n = toLowerCase name"
      then show ?thesis by (simp add: toLowerCase_idem)
    next
      assume "n \<in> fst ` set h"
      with assms show ?thesis by blast
    qed
  qed
qed

lemma headers_of_lower: "\<forall>n \<in> fst ` set (headers_of entries). toLowerCase n = n"
proof -
  have "\<forall>n \<in> fst ` set (fold (\<lambda>(n, v) h. header_put h n v) entries h). toLowerCase n = n"
    if "\<forall>n \<in> fst ` set h. toLowerCase n = n" for h
    using that
  proof (induction entries arbitrary: h)
    case Nil
    then show ?case by simp
  next
    case (Cons a entries)
    obtain n v where a: "a = (n, v)" by (cases a)
    show ?case
      using Cons.IH [OF header_put_lower [OF Cons.prems, of n v]] by (simp add: a)
  qed
  from this [of "[]"] show ?thesis by (simp add: headers_of_def)
qed

lemma headers_get_lower:
  assumes "\<forall>n \<in> fst ` set h. toLowerCase n = n"
  shows "headers_get h name = map_of h (toLowerCase name)"
proof -
  have "map (\<lambda>(n, v). (toLowerCase n, v)) h = h"
    using assms by (induction h) auto
  then show ?thesis by (simp add: headers_get_def)
qed

lemma headers_get_put:
  assumes "\<forall>n \<in> fst ` set h. toLowerCase n = n"
  shows "headers_get (header_put h name v) m
           = (if toLowerCase m = toLowerCase name then Some v else headers_get h m)"
  using headers_get_lower [OF header_put_lower [OF assms, of name v], of m]
        headers_get_lower [OF assms, of m]
  by (simp add: header_put_def update_conv')

text \<open>Which values \<open>set\<close> takes: a value without NUL, line feed and carriage return
  is accepted, after the white space around it is stripped.\<close>

lemma normalize_value_plain:
  "\<not> http_space a \<Longrightarrow> \<not> http_space b \<Longrightarrow> normalize_value (a # xs @ [b]) = a # xs @ [b]"
  by (simp add: normalize_value_def)

lemma header_value_ok_iff:
  "header_value_ok v = (\<forall>c \<in> set v. c \<notin> set [CHR 0x00, CHR 0x0A, CHR 0x0D])"
  unfolding header_value_ok_def filter_empty_conv by blast

lemma normalize_value_ok: "header_value_ok v \<Longrightarrow> header_value_ok (normalize_value v)"
proof -
  assume ok: "header_value_ok v"
  have sub: "set (dropWhile P xs) \<subseteq> set xs" for P and xs :: string
    by (auto dest: set_dropWhileD)
  have "set (normalize_value v) \<subseteq> set v"
    unfolding normalize_value_def
    using sub [of http_space v] sub [of http_space "rev (dropWhile http_space v)"] by auto
  with ok show ?thesis unfolding header_value_ok_iff by blast
qed

lemma headers_set_ok:
  "header_value_ok (normalize_value v) \<Longrightarrow>
   headers_set h name v = Inr (header_put h name (normalize_value v))"
  by (simp add: headers_set_def)

lemma headers_set_refused:
  "\<not> header_value_ok (normalize_value v) \<Longrightarrow>
   headers_set h name v = Inl (TypeError ''Invalid header value'')"
  by (simp add: headers_set_def)

lemma disposition_value:
  "normalize_value (''attachment; filename='' @ [CHR 0x22] @ filename @ [CHR 0x22])
     = ''attachment; filename='' @ [CHR 0x22] @ filename @ [CHR 0x22]"
  using normalize_value_plain [of "CHR ''a''" "CHR 0x22"
      "''ttachment; filename='' @ [CHR 0x22] @ filename"]
  by (simp add: http_space_def)

lemma disposition_ok:
  "header_value_ok (''attachment; filename='' @ [CHR 0x22] @ filename @ [CHR 0x22])
     = header_value_ok filename"
  by (simp add: header_value_ok_def)

text \<open>The headers of a download: for a name without NUL, line feed and carriage
  return they are the object's headers with five more set; for any other name the
  first \<open>set\<close> throws.\<close>

lemma setDownloadHeaders_ok:
  assumes "header_value_ok filename"
  shows "setDownloadHeaders filename object =
     Inr (header_put (header_put (header_put (header_put (header_put
            (case obj_headers object of None \<Rightarrow> [] | Some given \<Rightarrow> headers_of given)
            ''Content-Disposition''
              (''attachment; filename='' @ [CHR 0x22] @ filename @ [CHR 0x22]))
            ''Cache-Control'' ''public, max-age=31536000, immutable'')
            ''Access-Control-Allow-Origin'' ''*'')
            ''Access-Control-Allow-Methods'' ''GET, HEAD, OPTIONS'')
            ''Access-Control-Allow-Headers'' ''Content-Type, Authorization, X-Debug'')"
proof -
  have cd: "headers_set h ''Content-Disposition''
        (''attachment; filename='' @ [CHR 0x22] @ filename @ [CHR 0x22])
      = Inr (header_put h ''Content-Disposition''
               (''attachment; filename='' @ [CHR 0x22] @ filename @ [CHR 0x22]))" for h
    using assms headers_set_ok [of "''attachment; filename='' @ [CHR 0x22] @ filename @ [CHR 0x22]"
        h "''Content-Disposition''"]
    unfolding disposition_value disposition_ok by simp
  have plain:
    "headers_set h ''Cache-Control'' ''public, max-age=31536000, immutable''
       = Inr (header_put h ''Cache-Control'' ''public, max-age=31536000, immutable'')"
    "headers_set h ''Access-Control-Allow-Origin'' ''*''
       = Inr (header_put h ''Access-Control-Allow-Origin'' ''*'')"
    "headers_set h ''Access-Control-Allow-Methods'' ''GET, HEAD, OPTIONS''
       = Inr (header_put h ''Access-Control-Allow-Methods'' ''GET, HEAD, OPTIONS'')"
    "headers_set h ''Access-Control-Allow-Headers'' ''Content-Type, Authorization, X-Debug''
       = Inr (header_put h ''Access-Control-Allow-Headers''
                ''Content-Type, Authorization, X-Debug'')" for h
    by (simp_all add: headers_set_def normalize_value_def http_space_def header_value_ok_def)
  show ?thesis
    using cd plain by (simp add: setDownloadHeaders_def Let_def max_age then_set_def)
qed

lemma setDownloadHeaders_refused:
  assumes "\<not> header_value_ok filename"
  shows "setDownloadHeaders filename object = Inl (TypeError ''Invalid header value'')"
proof -
  have cd: "headers_set h ''Content-Disposition''
        (''attachment; filename='' @ [CHR 0x22] @ filename @ [CHR 0x22])
      = Inl (TypeError ''Invalid header value'')" for h
    using assms headers_set_refused [of "''attachment; filename='' @ [CHR 0x22] @ filename @ [CHR 0x22]"
        h "''Content-Disposition''"]
    unfolding disposition_value disposition_ok by simp
  show ?thesis
    using cd by (simp add: setDownloadHeaders_def Let_def then_set_def)
qed

lemma content_disposition:
  assumes "setDownloadHeaders filename object = Inr sent"
  shows "headers_get sent ''Content-Disposition''
           = Some (''attachment; filename='' @ [CHR 0x22] @ filename @ [CHR 0x22])
       \<and> (\<forall>n \<in> fst ` set sent. toLowerCase n = n)"
proof -
  have ok: "header_value_ok filename"
    using assms setDownloadHeaders_refused [of filename object] by auto
  define h0 where "h0 = (case obj_headers object of None \<Rightarrow> [] | Some given \<Rightarrow> headers_of given)"
  have l: "\<forall>n \<in> fst ` set h0. toLowerCase n = n"
    unfolding h0_def using headers_of_lower by (cases "obj_headers object") simp_all
  note l1 = header_put_lower [OF l]
  note l2 = header_put_lower [OF l1]
  note l3 = header_put_lower [OF l2]
  note l4 = header_put_lower [OF l3]
  note l5 = header_put_lower [OF l4]
  have low: "toLowerCase ''Content-Disposition'' \<noteq> toLowerCase ''Cache-Control''"
    "toLowerCase ''Content-Disposition'' \<noteq> toLowerCase ''Access-Control-Allow-Origin''"
    "toLowerCase ''Content-Disposition'' \<noteq> toLowerCase ''Access-Control-Allow-Methods''"
    "toLowerCase ''Content-Disposition'' \<noteq> toLowerCase ''Access-Control-Allow-Headers''"
    by (simp_all add: toLowerCase_def lower_char_def)
  have sent: "sent = header_put (header_put (header_put (header_put (header_put h0
            ''Content-Disposition''
              (''attachment; filename='' @ [CHR 0x22] @ filename @ [CHR 0x22]))
            ''Cache-Control'' ''public, max-age=31536000, immutable'')
            ''Access-Control-Allow-Origin'' ''*'')
            ''Access-Control-Allow-Methods'' ''GET, HEAD, OPTIONS'')
            ''Access-Control-Allow-Headers'' ''Content-Type, Authorization, X-Debug''"
    using assms unfolding setDownloadHeaders_ok [OF ok] h0_def by simp
  have get: "headers_get sent ''Content-Disposition''
           = Some (''attachment; filename='' @ [CHR 0x22] @ filename @ [CHR 0x22])"
    unfolding sent
    by (simp only: headers_get_put [OF l4] headers_get_put [OF l3] headers_get_put [OF l2]
        headers_get_put [OF l1] headers_get_put [OF l] low if_False if_True refl)
  have "\<forall>n \<in> fst ` set sent. toLowerCase n = n"
    unfolding sent by (rule l5)
  with get show ?thesis by blast
qed

lemma sample_headers:
  "header_value_ok filename \<Longrightarrow>
   setDownloadHeaders filename sample_object =
     Inr [(''content-disposition'', ''attachment; filename='' @ [CHR 0x22] @ filename @ [CHR 0x22]),
          (''cache-control'', ''public, max-age=31536000, immutable''),
          (''access-control-allow-origin'', ''*''),
          (''access-control-allow-methods'', ''GET, HEAD, OPTIONS''),
          (''access-control-allow-headers'', ''Content-Type, Authorization, X-Debug'')]"
  by (simp add: setDownloadHeaders_ok sample_object_def headers_of_def header_put_def
      toLowerCase_def lower_char_def)

lemma sample_object_headers: "obj_headers sample_object = Some []"
  by (simp add: sample_object_def)

lemma ok_a_pdf: "header_value_ok ''a.pdf''"
  by (simp add: header_value_ok_def)

lemma ok_song: "header_value_ok ''My%20Song.mp3''"
  by (simp add: header_value_ok_def)

section \<open>Resetting a counter needs the token\<close>

text \<open>
  Claim C6. For every key and every state of the counter store, a
  \<open>POST /reset-stats/{key}\<close> whose \<open>Authorization\<close> header is absent or is not
  \<open>Bearer <configured-token>\<close> is answered 401, and the environment it leaves is the
  one it found: no counter-store operation is performed, so every counter is unchanged.
\<close>

theorem reset_unauthorized:
  assumes "req_method req = ''POST''"
      and "req_path req = ''/reset-stats/'' @ key"
      and "headers_get (req_headers req) ''Authorization'' \<noteq> Some (''Bearer '' @ AUTH_TOKEN)"
  shows "fetch req e = (Inr (Response (Text ''Unauthorized'') 401 []), e)"
  using assms not_authorized [OF assms(3)]
  by (simp add: fetch_def startsWith_def resetDownloadCount_def Let_def)

theorem reset_unauthorized_witness:
  "req_method (sample_request ''POST'' ''/reset-stats/song.mp3'' [(''authorization'', ''Bearer guess'')])
       = ''POST''
   \<and> req_path (sample_request ''POST'' ''/reset-stats/song.mp3'' [(''authorization'', ''Bearer guess'')])
       = ''/reset-stats/'' @ ''song.mp3''
   \<and> headers_get (req_headers (sample_request ''POST'' ''/reset-stats/song.mp3''
          [(''authorization'', ''Bearer guess'')])) ''Authorization'' = Some ''Bearer guess''
   \<and> ''Bearer guess'' \<noteq> ''Bearer '' @ AUTH_TOKEN
   \<and> fetch (sample_request ''POST'' ''/reset-stats/song.mp3'' [(''authorization'', ''Bearer guess'')])
         (empty_env\<lparr>ZED_DOWNLOADS := [(''download:song.mp3'', ''7'')]\<rparr>)
       = (Inr (Response (Text ''Unauthorized'') 401 []),
          empty_env\<lparr>ZED_DOWNLOADS := [(''download:song.mp3'', ''7'')]\<rparr>)
   \<and> headers_get (req_headers (sample_request ''POST'' ''/reset-stats/song.mp3'' []))
         ''Authorization'' = None
   \<and> fetch (sample_request ''POST'' ''/reset-stats/song.mp3'' [])
         (empty_env\<lparr>ZED_DOWNLOADS := [(''download:song.mp3'', ''7'')]\<rparr>)
       = (Inr (Response (Text ''Unauthorized'') 401 []),
          empty_env\<lparr>ZED_DOWNLOADS := [(''download:song.mp3'', ''7'')]\<rparr>)"
proof -
  have h1: "headers_get (req_headers (sample_request ''POST'' ''/reset-stats/song.mp3''
          [(''authorization'', ''Bearer guess'')])) ''Authorization'' = Some ''Bearer guess''"
    by (simp add: sample_request_def headers_get_def toLowerCase_def lower_char_def)
  have h2: "headers_get (req_headers (sample_request ''POST'' ''/reset-stats/song.mp3'' []))
      ''Authorization'' = None"
    by (simp add: sample_request_def headers_get_def)
  have ne: "''Bearer guess'' \<noteq> ''Bearer '' @ AUTH_TOKEN"
    by (simp add: AUTH_TOKEN_def)
  have m: "req_method (sample_request ''POST'' ''/reset-stats/song.mp3'' hs) = ''POST''"
          "req_path (sample_request ''POST'' ''/reset-stats/song.mp3'' hs)
             = ''/reset-stats/'' @ ''song.mp3''" for hs
    by (simp_all add: sample_request_def)
  show ?thesis
    using reset_unauthorized [OF m(1) m(2), of "[(''authorization'', ''Bearer guess'')]"
            "empty_env\<lparr>ZED_DOWNLOADS := [(''download:song.mp3'', ''7'')]\<rparr>"]
          reset_unauthorized [OF m(1) m(2), of "[]"
            "empty_env\<lparr>ZED_DOWNLOADS := [(''download:song.mp3'', ''7'')]\<rparr>"]
          h1 h2 ne m
    by simp
qed

section \<open>A failed counter read is reported inside a 200\<close>

text \<open>
  Claim C5. For every non-empty filename (the piece of the path the router takes
  after \<open>/stats/\<close>), if the read of its counter throws, \<open>GET /stats/{filename}\<close>
  still answers 200, with a JSON body whose \<open>downloads\<close> field is 0 and which
  carries the error's message in an \<open>error\<close> field (and \<open>success: false\<close>); the
  failure is not propagated.
\<close>

theorem stats_read_failure_answers_200:
  assumes "req_method req = ''GET''"
      and "req_path req = ''/stats/'' @ rest"
      and "element (split (req_path req) ''/stats/'') 1 = Some filename"
      and "filename \<noteq> []"
      and "decodeURIComponent filename = Inr decoded"
      and "kv_get e (''download:'' @ decoded) = Inl err"
  shows "\<exists>r. fetch req e = (Inr r, e) \<and> resp_status r = 200
           \<and> json_field r ''downloads'' = Some (JNumber 0)
           \<and> json_field r ''error'' = Some (JString (error_message err))
           \<and> json_field r ''success'' = Some (JBool False)"
proof -
  have route: "fetch req e = (stats_route e (Some filename), e)"
    using assms(1,2,3) by (simp add: fetch_def startsWith_def Let_def)
  show ?thesis
    unfolding route using assms(4,5,6)
    by (simp add: stats_route_def json_field_def Response_def)
qed

theorem stats_read_failure_answers_200_witness:
  "req_method (sample_request ''GET'' ''/stats/song.mp3'' []) = ''GET''
   \<and> req_path (sample_request ''GET'' ''/stats/song.mp3'' []) = ''/stats/'' @ ''song.mp3''
   \<and> element (split (req_path (sample_request ''GET'' ''/stats/song.mp3'' [])) ''/stats/'') 1
       = Some ''song.mp3''
   \<and> decodeURIComponent ''song.mp3'' = Inr ''song.mp3''
   \<and> kv_get (empty_env\<lparr>faults := counter_down\<rparr>) (''download:'' @ ''song.mp3'')
       = Inl (StoreError ''KV unavailable'')
   \<and> (\<exists>r. fetch (sample_request ''GET'' ''/stats/song.mp3'' []) (empty_env\<lparr>faults := counter_down\<rparr>)
             = (Inr r, empty_env\<lparr>faults := counter_down\<rparr>)
          \<and> resp_status r = 200
          \<and> json_field r ''downloads'' = Some (JNumber 0)
          \<and> json_field r ''error'' = Some (JString ''KV unavailable'')
          \<and> json_field r ''success'' = Some (JBool False))"
proof -
  have m: "req_method (sample_request ''GET'' ''/stats/song.mp3'' []) = ''GET''"
    by (simp add: sample_request_def)
  have p: "req_path (sample_request ''GET'' ''/stats/song.mp3'' []) = ''/stats/'' @ ''song.mp3''"
    by (simp add: sample_request_def)
  have el: "element (split (req_path (sample_request ''GET'' ''/stats/song.mp3'' [])) ''/stats/'') 1
       = Some ''song.mp3''"
    by (simp add: sample_request_def split_stats_song element_def)
  have ne: "''song.mp3'' \<noteq> []" by simp
  have k: "kv_get (empty_env\<lparr>faults := counter_down\<rparr>) (''download:'' @ ''song.mp3'')
       = Inl (StoreError ''KV unavailable'')"
    by (simp add: kv_get_def counter_down_def)
  from stats_read_failure_answers_200 [OF m p el ne decode_song k] m p el decode_song k
  show ?thesis by simp
qed

section \<open>A download does not depend on the counter store\<close>

text \<open>
  Claim C8. A failure of the counter increment never reaches the caller of a download:
  the response (status, headers and body) is the same in any two environments that
  agree on the object store, whatever the counter store holds and whether or not its
  operations throw. This holds for the handler and for the request routed to it.
\<close>

theorem download_response_ignores_counter:
  assumes "media e1 = media e2"
      and "\<forall>k. faults e1 (R2Get k) = faults e2 (R2Get k)"
  shows "fst (handleDownload req e1 filename) = fst (handleDownload req e2 filename)
       \<and> (startsWith (req_path req) ''/download/'' \<longrightarrow> fst (fetch req e1) = fst (fetch req e2))"
proof -
  have get: "r2_get e1 k = r2_get e2 k" for k
    using assms by (auto simp: r2_get_def split: option.splits)
  have h: "fst (handleDownload req e1 f) = fst (handleDownload req e2 f)" for f
    by (simp add: handleDownload_def get Let_def split: sum.splits option.splits)
  have "fst (fetch req e1) = fst (fetch req e2)" if "startsWith (req_path req) ''/download/''"
  proof -
    have "\<not> startsWith (req_path req) ''/generate/''"
      using that by (auto simp: startsWith_def)
    then show ?thesis
      using that h by (simp add: fetch_def Let_def split: sum.splits)
  qed
  with h show ?thesis by blast
qed

theorem download_response_ignores_counter_witness:
  "media (env_with_file ''a.pdf'') = media ((env_with_file ''a.pdf'')\<lparr>faults := counter_down\<rparr>)
   \<and> (\<forall>k. faults (env_with_file ''a.pdf'') (R2Get k)
            = faults ((env_with_file ''a.pdf'')\<lparr>faults := counter_down\<rparr>) (R2Get k))
   \<and> fst (incrementDownloadCount (env_with_file ''a.pdf'') ''a.pdf'') = Inr (Some (Num 1))
   \<and> fst (incrementDownloadCount ((env_with_file ''a.pdf'')\<lparr>faults := counter_down\<rparr>) ''a.pdf'')
       = Inl (StoreError ''KV unavailable'')
   \<and> fst (handleDownload (sample_request ''GET'' ''/download/a.pdf'' []) (env_with_file ''a.pdf'') ''a.pdf'')
       = fst (handleDownload (sample_request ''GET'' ''/download/a.pdf'' [])
                ((env_with_file ''a.pdf'')\<lparr>faults := counter_down\<rparr>) ''a.pdf'')
   \<and> resp_status (fst (handleDownload (sample_request ''GET'' ''/download/a.pdf'' [])
                ((env_with_file ''a.pdf'')\<lparr>faults := counter_down\<rparr>) ''a.pdf'')) = 200
   \<and> startsWith (req_path (sample_request ''GET'' ''/download/a.pdf'' [])) ''/download/''
   \<and> fst (fetch (sample_request ''GET'' ''/download/a.pdf'' []) (env_with_file ''a.pdf''))
       = fst (fetch (sample_request ''GET'' ''/download/a.pdf'' [])
                ((env_with_file ''a.pdf'')\<lparr>faults := counter_down\<rparr>))"
proof -
  have a: "media (env_with_file ''a.pdf'') = media ((env_with_file ''a.pdf'')\<lparr>faults := counter_down\<rparr>)"
    by simp
  have b: "\<forall>k. faults (env_with_file ''a.pdf'') (R2Get k)
            = faults ((env_with_file ''a.pdf'')\<lparr>faults := counter_down\<rparr>) (R2Get k)"
    by (simp add: env_with_file_def empty_env_def no_faults_def counter_down_def)
  have i1: "fst (incrementDownloadCount (env_with_file ''a.pdf'') ''a.pdf'') = Inr (Some (Num 1))"
    by (simp add: incrementDownloadCount_def kv_get_def kv_put_def env_with_file_def empty_env_def
        no_faults_def Let_def)
  have i2: "fst (incrementDownloadCount ((env_with_file ''a.pdf'')\<lparr>faults := counter_down\<rparr>) ''a.pdf'')
       = Inl (StoreError ''KV unavailable'')"
    by (simp add: incrementDownloadCount_def kv_get_def counter_down_def increment_failed_def DEBUG_def)
  have st: "resp_status (fst (handleDownload (sample_request ''GET'' ''/download/a.pdf'' [])
                ((env_with_file ''a.pdf'')\<lparr>faults := counter_down\<rparr>) ''a.pdf'')) = 200"
    by (simp add: handleDownload_def valid_a_pdf decode_a_pdf r2_get_def counter_down_def
        env_with_file_def Response_def Let_def sample_headers [OF ok_a_pdf] sample_request_def
        headers_get_def sample_object_headers)
  have sw: "startsWith (req_path (sample_request ''GET'' ''/download/a.pdf'' [])) ''/download/''"
    by (simp add: sample_request_def startsWith_def)
  from download_response_ignores_counter [OF a b,
      of "sample_request ''GET'' ''/download/a.pdf'' []" "''a.pdf''"]
    a b i1 i2 st sw
  show ?thesis by blast
qed

section \<open>A bare prefix is a request without a file name\<close>

text \<open>
  Claim C10, as stated, fails for a preflight request: \<open>OPTIONS\<close> is answered before
  any route is looked at, with an empty body and status 200, also on \<open>/download/\<close>.
\<close>

theorem options_on_bare_prefix_is_200:
  "fetch (sample_request ''OPTIONS'' ''/download/'' []) empty_env =
     (Inr (Response NoBody 200
             (headers_of
                [(''Access-Control-Allow-Origin'', ''*''),
                 (''Access-Control-Allow-Methods'', ''GET, POST, PUT, DELETE, OPTIONS''),
                 (''Access-Control-Allow-Headers'', ''Content-Type, Authorization, X-Debug''),
                 (''Access-Control-Max-Age'', ''86400'')])), empty_env)
   \<and> resp_status (Response NoBody 200
             (headers_of
                [(''Access-Control-Allow-Origin'', ''*''),
                 (''Access-Control-Allow-Methods'', ''GET, POST, PUT, DELETE, OPTIONS''),
                 (''Access-Control-Allow-Headers'', ''Content-Type, Authorization, X-Debug''),
                 (''Access-Control-Max-Age'', ''86400'')])) = 200"
  by (simp add: fetch_def sample_request_def Response_def)

text \<open>
  Claim C10, amended. For every request whose method is not \<open>OPTIONS\<close> and whose path
  is exactly \<open>/download/\<close>, \<open>/generate/\<close> or \<open>/stats/\<close>, the response is a fixed
  plain-text 400 and the environment is left as it was: the answer does not depend on
  either store, and no store operation is performed.
\<close>

theorem bare_prefix_answers_400:
  assumes "req_method req \<noteq> ''OPTIONS''"
      and "req_path req \<in> {''/download/'', ''/generate/'', ''/stats/''}"
  shows "fetch req e =
           (Inr (Response
                   (Text (if req_path req = ''/stats/'' then ''Filename required''
                          else ''Invalid file type''))
                   400 []), e)"
proof -
  have s1: "split ''/download/'' ''/download/'' = [[], []]" by code_simp
  have s2: "split ''/generate/'' ''/generate/'' = [[], []]" by code_simp
  have s3: "split ''/stats/'' ''/stats/'' = [[], []]" by code_simp
  have d: "decodeURIComponent [] = Inr []" by code_simp
  from assms(2) consider "req_path req = ''/download/''" | "req_path req = ''/generate/''"
    | "req_path req = ''/stats/''" by auto
  then show ?thesis
  proof cases
    case 1
    then show ?thesis using assms(1)
      by (simp add: fetch_def startsWith_def Let_def s1 d element_def handleDownload_def)
  next
    case 2
    then show ?thesis using assms(1)
      by (simp add: fetch_def startsWith_def Let_def s2 d element_def generateDownloadUrl_def)
  next
    case 3
    then show ?thesis using assms(1)
      by (simp add: fetch_def startsWith_def Let_def s3 element_def stats_route_def)
  qed
qed

theorem bare_prefix_answers_400_witness:
  "req_method (sample_request ''GET'' ''/stats/'' []) \<noteq> ''OPTIONS''
   \<and> req_path (sample_request ''GET'' ''/stats/'' []) \<in> {''/download/'', ''/generate/'', ''/stats/''}
   \<and> fetch (sample_request ''GET'' ''/stats/'' []) (empty_env\<lparr>faults := counter_down\<rparr>)
       = (Inr (Response (Text ''Filename required'') 400 []), empty_env\<lparr>faults := counter_down\<rparr>)
   \<and> req_path (sample_request ''GET'' ''/download/'' []) \<in> {''/download/'', ''/generate/'', ''/stats/''}
   \<and> fetch (sample_request ''GET'' ''/download/'' []) (env_with_file ''a.pdf'')
       = (Inr (Response (Text ''Invalid file type'') 400 []), env_with_file ''a.pdf'')"
  using bare_prefix_answers_400 [of "sample_request ''GET'' ''/stats/'' []"
            "empty_env\<lparr>faults := counter_down\<rparr>"]
        bare_prefix_answers_400 [of "sample_request ''GET'' ''/download/'' []" "env_with_file ''a.pdf''"]
  by (simp add: sample_request_def)

section \<open>An upload without a file\<close>

text \<open>What holds of an incomplete upload: with the token, a form that names the upload
  but brings no file, and a form whose file has an empty name and no \<open>filename\<close>
  entry, are both answered 400 and store nothing.\<close>

lemma upload_named_without_file:
  assumes "authorized (headers_get (req_headers req) ''Authorization'')"
      and "req_form req = Some formData"
      and "form_get formData ''file'' = None"
      and "form_get formData ''filename'' = Some (FormString name)"
      and "name \<noteq> []"
  shows "handleUpload req e = (Inr (Response (Text ''No file provided'') 400 []), e)"
  using assms by (simp add: handleUpload_def upload_name_def)

lemma upload_file_without_name:
  assumes "authorized (headers_get (req_headers req) ''Authorization'')"
      and "req_form req = Some formData"
      and "form_get formData ''file'' = Some (FormFile f)"
      and "file_name f = []"
      and "form_get formData ''filename'' = None"
  shows "handleUpload req e = (Inr (Response (Text ''No file provided'') 400 []), e)"
  using assms by (simp add: handleUpload_def upload_name_def)

text \<open>
  Claim C2 says that an authorized upload whose form has no \<open>file\<close> entry (and no
  usable filename) is answered 400. The handler means to: its check
  \<open>!file || !filename\<close> answers 400. But the line before it reads \<open>file.name\<close> while
  \<open>file\<close> is \<open>null\<close>, so the request ends in an uncaught \<open>TypeError\<close> instead of
  a response.
\<close>

theorem upload_without_file_throws:
  "fetch (upload_request [(''authorization'', ''Bearer your-secret-token'')] []) e
     = (Inl (TypeError ''Cannot read properties of null (reading 'name')''), e)"
  by (simp add: fetch_def upload_request_def sample_request_def startsWith_def handleUpload_def
      auth_header_sample authorized_def AUTH_TOKEN_def upload_name_def form_get_def)

section \<open>Downloading a stored object\<close>

lemma valid_nonempty: "isValidFile filename \<Longrightarrow> filename \<noteq> []"
  by (auto simp: isValidFile_def lastIndexOf_def substring_def toLowerCase_def
      ALLOWED_EXTENSIONS_def)

text \<open>What holds of a download: a stored object that carries headers, under a name
  that survives a second decoding and has no NUL, line feed or carriage return (nor
  has the decoded name, which debug mode puts in a header), is served with 200, the
  forced-download header naming it and the stored bytes as body; the count is
  updated if the platform lets the update finish. A valid name with no object is
  answered 404.\<close>

lemma download_found:
  assumes "isValidFile filename"
      and "r2_get e filename = Inr (Some object)"
      and "obj_headers object = Some given"
      and "decodeURIComponent filename = Inr counted"
      and "header_value_ok filename"
      and "header_value_ok counted"
  shows "resp_status (fst (handleDownload req e filename)) = 200
       \<and> resp_body (fst (handleDownload req e filename)) = Stream (obj_body object)
       \<and> headers_get (resp_headers (fst (handleDownload req e filename))) ''Content-Disposition''
           = Some (''attachment; filename='' @ [CHR 0x22] @ filename @ [CHR 0x22])
       \<and> snd (handleDownload req e filename)
           = (if detached_work_finishes e then snd (incrementDownloadCount e counted) else e)"
proof -
  have ne: "filename \<noteq> []"
    using assms(1) by (rule valid_nonempty)
  obtain sent where sent: "setDownloadHeaders filename object = Inr sent"
    using setDownloadHeaders_ok [OF assms(5)] by blast
  from content_disposition [OF sent]
  have cd: "headers_get sent ''Content-Disposition''
           = Some (''attachment; filename='' @ [CHR 0x22] @ filename @ [CHR 0x22])"
    and low: "\<forall>n \<in> fst ` set sent. toLowerCase n = n" by blast+
  have key_ok: "header_value_ok (''download:'' @ counted)"
    using assms(6) by (simp add: header_value_ok_def)
  have dbg_set: "then_set (then_set (Inr sent) ''X-Debug-Filename'' filename)
        ''X-Debug-Count-Key'' (''download:'' @ counted)
      = Inr (header_put (header_put sent ''X-Debug-Filename'' (normalize_value filename))
               ''X-Debug-Count-Key'' (normalize_value (''download:'' @ counted)))"
    using normalize_value_ok [OF assms(5)] normalize_value_ok [OF key_ok]
    by (simp add: then_set_def headers_set_def del: append.simps)
  have dbg: "toLowerCase ''Content-Disposition'' \<noteq> toLowerCase ''X-Debug-Filename''"
    "toLowerCase ''Content-Disposition'' \<noteq> toLowerCase ''X-Debug-Count-Key''"
    by (simp_all add: toLowerCase_def lower_char_def)
  have cd_dbg: "headers_get (header_put (header_put sent ''X-Debug-Filename'' a)
        ''X-Debug-Count-Key'' b) ''Content-Disposition''
      = Some (''attachment; filename='' @ [CHR 0x22] @ filename @ [CHR 0x22])" for a b
    by (simp only: headers_get_put [OF header_put_lower [OF low]] headers_get_put [OF low]
        dbg if_False cd)
  show ?thesis
  proof (cases "headers_get (req_headers req) ''X-Debug'' = Some ''true''")
    case True
    with assms(1-4) ne sent dbg_set cd_dbg show ?thesis
      by (simp add: handleDownload_def Let_def Response_def del: append.simps)
  next
    case False
    with assms(1-4) ne sent cd show ?thesis
      by (simp add: handleDownload_def Let_def Response_def del: append.simps)
  qed
qed

lemma download_absent:
  assumes "isValidFile filename" and "r2_get e filename = Inr None"
  shows "handleDownload req e filename = (Response (Text ''File not found'') 404 [], e)"
  using assms valid_nonempty [OF assms(1)] by (simp add: handleDownload_def)

text \<open>A stored object without iterable headers is answered 500, before anything is
  counted: so is every object that an upload has stored.\<close>

lemma download_without_headers:
  assumes "isValidFile filename"
      and "r2_get e filename = Inr (Some object)"
      and "obj_headers object = None"
  shows "handleDownload req e filename = (Response (Text ''Error retrieving file'') 500 [], e)"
  using assms valid_nonempty [OF assms(1)] by (simp add: handleDownload_def)

lemma download_of_uploaded_object_is_500:
  "\<exists>up. serve [upload_request [(''authorization'', ''Bearer your-secret-token'')]
                   [(''file'', FormFile \<lparr>file_name = ''a.pdf'', file_bytes = ''%PDF-1.7''\<rparr>)],
                sample_request ''GET'' ''/download/a.pdf'' []] empty_env
           = ([Inr up, Inr (Response (Text ''Error retrieving file'') 500 [])],
              empty_env\<lparr>media :=
                 [(''a.pdf'', \<lparr> obj_body = ''%PDF-1.7'', obj_size = 8,
                                obj_uploaded = ''2023-11-14T22:13:20.000Z'',
                                obj_headers = None \<rparr>)]\<rparr>)
         \<and> resp_status up = 200"
proof -
  let ?e = "empty_env\<lparr>media :=
                 [(''a.pdf'', \<lparr> obj_body = ''%PDF-1.7'', obj_size = 8,
                                obj_uploaded = ''2023-11-14T22:13:20.000Z'',
                                obj_headers = None \<rparr>)]\<rparr>"
  have up: "\<exists>up. fetch (upload_request [(''authorization'', ''Bearer your-secret-token'')]
                   [(''file'', FormFile \<lparr>file_name = ''a.pdf'', file_bytes = ''%PDF-1.7''\<rparr>)])
                empty_env = (Inr up, ?e) \<and> resp_status up = 200"
    by (simp add: fetch_def upload_request_def sample_request_def startsWith_def handleUpload_def
        auth_header_sample authorized_def AUTH_TOKEN_def upload_name_def form_get_def
        valid_a_pdf r2_put_def stored_object_def empty_env_def no_faults_def Response_def)
  have get: "r2_get ?e ''a.pdf'' = Inr (Some \<lparr> obj_body = ''%PDF-1.7'', obj_size = 8,
                                obj_uploaded = ''2023-11-14T22:13:20.000Z'',
                                obj_headers = None \<rparr>)"
    by (simp add: r2_get_def empty_env_def no_faults_def)
  have dl: "fetch (sample_request ''GET'' ''/download/a.pdf'' []) ?e
      = (Inr (Response (Text ''Error retrieving file'') 500 []), ?e)"
    using download_without_headers [OF valid_a_pdf get]
    by (simp add: fetch_def sample_request_def startsWith_def split_download_a_pdf element_def
        decode_a_pdf)
  from up obtain u where u: "fetch (upload_request [(''authorization'', ''Bearer your-secret-token'')]
                   [(''file'', FormFile \<lparr>file_name = ''a.pdf'', file_bytes = ''%PDF-1.7''\<rparr>)])
                empty_env = (Inr u, ?e)" "resp_status u = 200" by blast
  show ?thesis
    using u dl by simp
qed

text \<open>A name with a line feed (or a NUL, or a carriage return) is refused by the
  first header that is set from it, and the object that is there is answered 500.\<close>

lemma download_refused_name:
  assumes "isValidFile filename"
      and "r2_get e filename = Inr (Some object)"
      and "obj_headers object = Some given"
      and "decodeURIComponent filename = Inr counted"
      and "\<not> header_value_ok filename"
  shows "fst (handleDownload req e filename) = Response (Text ''Error retrieving file'') 500 []"
  using assms valid_nonempty [OF assms(1)] setDownloadHeaders_refused [OF assms(5), of object]
  by (simp add: handleDownload_def Let_def then_set_def)

text \<open>
  Claim C3 says that a key with an allowed extension and an object in the store is
  served with status 200. The handler receives the name already decoded and decodes
  it a second time for the counter; for a stored name with a bare percent sign, such
  as \<open>100%.pdf\<close> (requested as \<open>/download/100%25.pdf\<close>), that second decoding throws
  inside the handler's \<open>try\<close>, and the object that is there is answered with 500.
\<close>

theorem download_of_percent_key_is_500:
  "isValidFile ''100%.pdf''
   \<and> r2_get (env_with_file ''100%.pdf'') ''100%.pdf'' = Inr (Some sample_object)
   \<and> fetch (sample_request ''GET'' ''/download/100%25.pdf'' []) (env_with_file ''100%.pdf'')
       = (Inr (Response (Text ''Error retrieving file'') 500 []), env_with_file ''100%.pdf'')"
  by (simp add: valid_percent r2_get_def env_with_file_def empty_env_def no_faults_def
      fetch_def sample_request_def startsWith_def split_download_percent element_def
      decode_percent_once decode_percent_twice handleDownload_def sample_object_headers)

section \<open>Counting downloads and reading the count\<close>

text \<open>What holds of the count: for a name that a second decoding leaves as it is (any
  name without a percent sign) and that has no NUL, line feed or carriage return,
  with both stores answering, an object that carries headers and a platform that
  lets the counter updates finish, N downloads in a row are each answered 200 and
  the stats request after them reports N, as long as the count stays within
  \<open>2^53\<close>.\<close>

lemma increment_counts:
  assumes "\<forall>op. faults e op = None"
      and "map_of (ZED_DOWNLOADS e) (''download:'' @ key) = (if k = 0 then None else Some (decimal k))"
      and "k < 9007199254740992"
  shows "snd (incrementDownloadCount e key) =
           e\<lparr>ZED_DOWNLOADS := AList.update (''download:'' @ key) (decimal (Suc k)) (ZED_DOWNLOADS e)\<rparr>"
proof (cases "k = 0")
  case True
  with assms show ?thesis
    by (simp add: incrementDownloadCount_def kv_get_def kv_put_def toString_1 decimal_1)
next
  case False
  have s: "toString (Num (int (Suc k))) = decimal (Suc k)"
    using assms(3) by (intro toString_safe) simp
  have new: "num_add (parseInt (decimal k)) (Num 1) = Num (int (Suc k))"
    using assms(3) by (simp add: parseInt_decimal num_add_one del: num_add.simps)
  from False assms(1,2) decimal_nonempty [of k] show ?thesis
    by (simp add: incrementDownloadCount_def kv_get_def kv_put_def new s Let_def
        del: num_add.simps of_nat_Suc)
qed

lemma download_step:
  assumes "req_method req = ''GET''"
      and "req_path req = ''/download/'' @ seg"
      and "element (split (req_path req) ''/download/'') 1 = Some seg"
      and "decodeURIComponent seg = Inr key"
      and "decodeURIComponent key = Inr key"
      and "isValidFile key"
      and "header_value_ok key"
      and "obj_headers object = Some given"
      and "map_of (media e) key = Some object"
      and "\<forall>op. faults e op = None"
      and "detached_work_finishes e"
      and "map_of (ZED_DOWNLOADS e) (''download:'' @ key) = (if k = 0 then None else Some (decimal k))"
      and "k < 9007199254740992"
  shows "\<exists>r. fetch req e =
              (Inr r, e\<lparr>ZED_DOWNLOADS :=
                          AList.update (''download:'' @ key) (decimal (Suc k)) (ZED_DOWNLOADS e)\<rparr>)
           \<and> resp_status r = 200 \<and> resp_body r = Stream (obj_body object)"
proof -
  have get: "r2_get e key = Inr (Some object)"
    using assms(9,10) by (simp add: r2_get_def)
  have route: "fetch req e = (Inr (fst (handleDownload req e key)), snd (handleDownload req e key))"
    using assms(1,2,3,4) by (simp add: fetch_def startsWith_def Let_def)
  from download_found [OF assms(6) get assms(8) assms(5) assms(7) assms(7), of req]
    increment_counts [OF assms(10,12,13)] assms(11)
  show ?thesis unfolding route by simp
qed

lemma serve_Cons:
  "serve (req # reqs) e =
     (fst (fetch req e) # fst (serve reqs (snd (fetch req e))),
      snd (serve reqs (snd (fetch req e))))"
  by (simp split: prod.splits)

lemma serve_append:
  "serve (xs @ ys) e =
     (fst (serve xs e) @ fst (serve ys (snd (serve xs e))), snd (serve ys (snd (serve xs e))))"
  by (induction xs arbitrary: e) (simp_all add: serve_Cons del: serve.simps(2))

lemma serve_downloads:
  assumes "req_method req = ''GET''"
      and "req_path req = ''/download/'' @ seg"
      and "element (split (req_path req) ''/download/'') 1 = Some seg"
      and "decodeURIComponent seg = Inr key"
      and "decodeURIComponent key = Inr key"
      and "isValidFile key"
      and "header_value_ok key"
      and "obj_headers object = Some given"
      and "map_of (media e) key = Some object"
      and "\<forall>op. faults e op = None"
      and "detached_work_finishes e"
      and "map_of (ZED_DOWNLOADS e) (''download:'' @ key) = (if k = 0 then None else Some (decimal k))"
      and "k + N \<le> 9007199254740992"
  shows "length (fst (serve (replicate N req) e)) = N
       \<and> (\<forall>x \<in> set (fst (serve (replicate N req) e)).
            \<exists>r. x = Inr r \<and> resp_status r = 200 \<and> resp_body r = Stream (obj_body object))
       \<and> media (snd (serve (replicate N req) e)) = media e
       \<and> faults (snd (serve (replicate N req) e)) = faults e
       \<and> now_iso (snd (serve (replicate N req) e)) = now_iso e
       \<and> map_of (ZED_DOWNLOADS (snd (serve (replicate N req) e))) (''download:'' @ key)
           = (if k + N = 0 then None else Some (decimal (k + N)))"
  using assms(9-13)
proof (induction N arbitrary: e k)
  case 0
  then show ?case by simp
next
  case (Suc N)
  let ?e1 = "e\<lparr>ZED_DOWNLOADS :=
                AList.update (''download:'' @ key) (decimal (Suc k)) (ZED_DOWNLOADS e)\<rparr>"
  have k: "k < 9007199254740992" using Suc.prems(5) by simp
  from download_step [OF assms(1-8) Suc.prems(1-4) k]
  obtain r where r: "fetch req e = (Inr r, ?e1)" "resp_status r = 200"
    "resp_body r = Stream (obj_body object)" by blast
  have m: "map_of (media ?e1) key = Some object" using Suc.prems(1) by simp
  have f: "\<forall>op. faults ?e1 op = None" using Suc.prems(2) by simp
  have d: "detached_work_finishes ?e1" using Suc.prems(3) by simp
  have c: "map_of (ZED_DOWNLOADS ?e1) (''download:'' @ key)
             = (if Suc k = 0 then None else Some (decimal (Suc k)))"
    by (simp add: update_conv')
  have b: "Suc k + N \<le> 9007199254740992" using Suc.prems(5) by simp
  have step: "serve (replicate (Suc N) req) e =
      (Inr r # fst (serve (replicate N req) ?e1), snd (serve (replicate N req) ?e1))"
    using r(1) by (simp add: serve_Cons del: serve.simps(2))
  have sum: "k + Suc N = Suc k + N" by simp
  from Suc.IH [OF m f d c b] r(2,3) show ?case
    unfolding step sum by simp
qed

lemma stats_reads_counter:
  assumes "req_method req = ''GET''"
      and "req_path req = ''/stats/'' @ seg"
      and "element (split (req_path req) ''/stats/'') 1 = Some seg"
      and "seg \<noteq> []"
      and "decodeURIComponent seg = Inr key"
      and "\<forall>op. faults e op = None"
      and "map_of (ZED_DOWNLOADS e) (''download:'' @ key) = (if k = 0 then None else Some (decimal k))"
      and "k \<le> 9007199254740992"
  shows "\<exists>r. fetch req e = (Inr r, e) \<and> resp_status r = 200
           \<and> json_field r ''downloads'' = Some (JNumber (int k))"
proof -
  have route: "fetch req e = (stats_route e (Some seg), e)"
    using assms(1,2,3) by (simp add: fetch_def startsWith_def Let_def)
  show ?thesis
    unfolding route using assms(4-7) decimal_nonempty [of k] parseInt_decimal [OF assms(8)]
    by (simp add: stats_route_def kv_get_def json_field_def Response_def)
qed

lemma counted_downloads_are_reported:
  assumes "req_method dl = ''GET''"
      and "req_path dl = ''/download/'' @ seg"
      and "element (split (req_path dl) ''/download/'') 1 = Some seg"
      and "req_method st = ''GET''"
      and "req_path st = ''/stats/'' @ seg"
      and "element (split (req_path st) ''/stats/'') 1 = Some seg"
      and "decodeURIComponent seg = Inr key"
      and "decodeURIComponent key = Inr key"
      and "isValidFile key"
      and "header_value_ok key"
      and "obj_headers object = Some given"
      and "map_of (media e) key = Some object"
      and "\<forall>op. faults e op = None"
      and "detached_work_finishes e"
      and "map_of (ZED_DOWNLOADS e) (''download:'' @ key) = None"
      and "N \<le> 9007199254740992"
  shows "\<exists>rs r e'. serve (replicate N dl @ [st]) e = (rs @ [Inr r], e')
           \<and> length rs = N
           \<and> (\<forall>x \<in> set rs. \<exists>d. x = Inr d \<and> resp_status d = 200
                  \<and> resp_body d = Stream (obj_body object))
           \<and> resp_status r = 200
           \<and> json_field r ''downloads'' = Some (JNumber (int N))"
proof -
  let ?e = "snd (serve (replicate N dl) e)"
  have c0: "map_of (ZED_DOWNLOADS e) (''download:'' @ key)
      = (if (0::nat) = 0 then None else Some (decimal 0))"
    using assms(15) by simp
  have b0: "0 + N \<le> 9007199254740992" using assms(16) by simp
  note after = serve_downloads [OF assms(1-3) assms(7-14) c0 b0]
  have seg: "seg \<noteq> []"
  proof
    assume "seg = []"
    with assms(7) have "key = []" by (simp add: decodeURIComponent_def)
    with valid_nonempty [OF assms(9)] show False by simp
  qed
  have f: "\<forall>op. faults ?e op = None" using after assms(13) by simp
  have c: "map_of (ZED_DOWNLOADS ?e) (''download:'' @ key)
      = (if N = 0 then None else Some (decimal N))"
    using after by simp
  from stats_reads_counter [OF assms(4-6) seg assms(7) f c assms(16)]
  obtain r where r: "fetch st ?e = (Inr r, ?e)" "resp_status r = 200"
    "json_field r ''downloads'' = Some (JNumber (int N))" by blast
  have "serve (replicate N dl @ [st]) e = (fst (serve (replicate N dl) e) @ [Inr r], ?e)"
    using r(1) by (simp add: serve_append)
  with after r show ?thesis by blast
qed

lemma split_stats_a_pdf: "split ''/stats/a.pdf'' ''/stats/'' = [[], ''a.pdf'']"
  by code_simp

lemma three_downloads_are_reported:
  "\<exists>rs r e'. serve (replicate 3 (sample_request ''GET'' ''/download/a.pdf'' [])
                     @ [sample_request ''GET'' ''/stats/a.pdf'' []]) (env_with_file ''a.pdf'')
                = (rs @ [Inr r], e')
           \<and> length rs = 3
           \<and> (\<forall>x \<in> set rs. \<exists>d. x = Inr d \<and> resp_status d = 200
                  \<and> resp_body d = Stream (obj_body sample_object))
           \<and> resp_status r = 200
           \<and> json_field r ''downloads'' = Some (JNumber 3)"
  using counted_downloads_are_reported [of "sample_request ''GET'' ''/download/a.pdf'' []" "''a.pdf''"
      "sample_request ''GET'' ''/stats/a.pdf'' []" "''a.pdf''" sample_object "[]"
      "env_with_file ''a.pdf''" 3]
  by (simp add: sample_request_def split_download_a_pdf split_stats_a_pdf element_def
      decode_a_pdf valid_a_pdf ok_a_pdf sample_object_headers env_with_file_def empty_env_def
      no_faults_def)

text \<open>Without that, nothing is counted: where the platform ends the update that the
  handler did not wait for, the download is answered 200 and the stores are left as
  they were.\<close>

lemma unfinished_update_counts_nothing:
  assumes "isValidFile filename"
      and "r2_get e filename = Inr (Some object)"
      and "obj_headers object = Some given"
      and "decodeURIComponent filename = Inr counted"
      and "header_value_ok filename"
      and "header_value_ok counted"
      and "\<not> detached_work_finishes e"
  shows "resp_status (fst (handleDownload req e filename)) = 200
       \<and> snd (handleDownload req e filename) = e"
  using download_found [OF assms(1-6), of req] assms(7) by simp

lemma download_song:
  "fetch (sample_request ''GET'' ''/download/My%2520Song.mp3'' []) (env_with_file ''My%20Song.mp3'')
     = (Inr (Response (Stream (obj_body sample_object)) 200
               [(''content-disposition'',
                 ''attachment; filename='' @ [CHR 0x22] @ ''My%20Song.mp3'' @ [CHR 0x22]),
                (''cache-control'', ''public, max-age=31536000, immutable''),
                (''access-control-allow-origin'', ''*''),
                (''access-control-allow-methods'', ''GET, HEAD, OPTIONS''),
                (''access-control-allow-headers'', ''Content-Type, Authorization, X-Debug'')]),
        (env_with_file ''My%20Song.mp3'')\<lparr>ZED_DOWNLOADS := [(''download:My Song.mp3'', ''1'')]\<rparr>)"
  by (simp add: fetch_def sample_request_def startsWith_def split_download_song element_def
      decode_song_once decode_song_twice handleDownload_def valid_song r2_get_def
      env_with_file_def empty_env_def no_faults_def incrementDownloadCount_def kv_get_def
      kv_put_def toString_1 headers_get_def Let_def sample_object_headers
      sample_headers [OF ok_song])

lemma stats_song:
  "fetch (sample_request ''GET'' ''/stats/My%2520Song.mp3'' [])
      ((env_with_file ''My%20Song.mp3'')\<lparr>ZED_DOWNLOADS := [(''download:My Song.mp3'', ''1'')]\<rparr>)
     = (Inr (Response
               (Json (JObject
                  [(''success'', JBool True),
                   (''filename'', JString ''My%20Song.mp3''),
                   (''downloads'', JNumber 0),
                   (''key'', JString ''download:My%20Song.mp3''),
                   (''timestamp'', JString ''2023-11-14T22:13:20.000Z'')]))
               200
               (headers_of
                  [(''Content-Type'', ''application/json''),
                   (''Access-Control-Allow-Origin'', ''*''),
                   (''Cache-Control'', ''no-cache'')])),
        (env_with_file ''My%20Song.mp3'')\<lparr>ZED_DOWNLOADS := [(''download:My Song.mp3'', ''1'')]\<rparr>)"
  by (simp add: fetch_def sample_request_def startsWith_def split_stats_escaped_song element_def
      decode_song_once stats_route_def kv_get_def env_with_file_def empty_env_def no_faults_def)

text \<open>
  Claim C1 says that after N successful downloads of a key its stats report N, the
  download path writing the counter key the stats path reads. The stats path reads
  \<open>download:\<close> + the name decoded once; the download path counts under
  \<open>download:\<close> + the name decoded twice. For the stored name \<open>My%20Song.mp3\<close>, one
  successful download (status 200, with the headers of a download, from an empty
  counter store, the update running to its end) counts under
  \<open>download:My Song.mp3\<close>, and the stats of the same name then report 0.
\<close>

theorem stats_misses_download_of_escaped_key:
  "\<exists>sent. setDownloadHeaders ''My%20Song.mp3'' sample_object = Inr sent
     \<and> serve [sample_request ''GET'' ''/download/My%2520Song.mp3'' [],
              sample_request ''GET'' ''/stats/My%2520Song.mp3'' []]
         (env_with_file ''My%20Song.mp3'')
       = ([Inr (Response (Stream (obj_body sample_object)) 200 sent),
           Inr (Response
                  (Json (JObject
                     [(''success'', JBool True),
                      (''filename'', JString ''My%20Song.mp3''),
                      (''downloads'', JNumber 0),
                      (''key'', JString ''download:My%20Song.mp3''),
                      (''timestamp'', JString ''2023-11-14T22:13:20.000Z'')]))
                  200
                  (headers_of
                     [(''Content-Type'', ''application/json''),
                      (''Access-Control-Allow-Origin'', ''*''),
                      (''Cache-Control'', ''no-cache'')]))],
          (env_with_file ''My%20Song.mp3'')\<lparr>ZED_DOWNLOADS := [(''download:My Song.mp3'', ''1'')]\<rparr>)"
  by (simp add: download_song stats_song sample_headers [OF ok_song])

section \<open>Which responses are JSON with a success field\<close>

lemma not_stringified_Text: "\<not> written_by_stringify (Response (Text t) st h)"
  by (simp add: written_by_stringify_def Response_def)

lemma not_stringified_Stream: "\<not> written_by_stringify (Response (Stream t) st h)"
  by (simp add: written_by_stringify_def Response_def)

lemma not_stringified_NoBody: "\<not> written_by_stringify (Response NoBody st h)"
  by (simp add: written_by_stringify_def Response_def)

lemma success_first:
  "has_success_field (Response (Json (JObject ((''success'', JBool b) # props))) st h)"
  by (simp add: has_success_field_def json_field_def Response_def)

lemmas success_simps =
  not_stringified_Text not_stringified_Stream not_stringified_NoBody success_first

lemma generate_success:
  "written_by_stringify (generateDownloadUrl req e f) \<Longrightarrow>
   has_success_field (generateDownloadUrl req e f)"
  by (auto simp: generateDownloadUrl_def success_simps split: if_splits)

lemma download_not_stringified:
  "\<not> written_by_stringify (fst (handleDownload req e f))"
  by (auto simp: handleDownload_def success_simps Let_def split: sum.splits option.splits)

lemma stats_success:
  "stats_route e f = Inr r \<Longrightarrow> written_by_stringify r \<Longrightarrow> has_success_field r"
  by (auto simp: stats_route_def success_simps split: if_splits sum.splits)

lemma all_stats_success: "has_success_field (getAllStats e)"
  by (auto simp: getAllStats_def stats_failed_def success_simps split: sum.splits prod.splits)

lemma test_kv_success: "has_success_field (fst (testKV e))"
  by (auto simp: testKV_def kv_test_failed_def success_simps Let_def split: sum.splits)

lemma reset_success:
  "written_by_stringify (fst (resetDownloadCount e f a)) \<Longrightarrow>
   has_success_field (fst (resetDownloadCount e f a))"
  by (auto simp: resetDownloadCount_def success_simps split: if_splits sum.splits)

lemma upload_success:
  "fst (handleUpload req e) = Inr r \<Longrightarrow> written_by_stringify r \<Longrightarrow> has_success_field r"
  by (auto simp: handleUpload_def success_simps
      split: if_splits sum.splits option.splits name_value.splits)

lemma list_success:
  "written_by_stringify (listFiles e) \<Longrightarrow> has_success_field (listFiles e)"
  by (auto simp: listFiles_def success_simps split: sum.splits)

text \<open>
  Claim C9, as stated, fails: the validation (400), authorization (401) and not-found
  (404) responses are string literals, not JSON, and have no \<open>success\<close> field; and
  the file listing of the base worker is JSON without that field.
\<close>

theorem error_responses_are_plain_text:
  "fetch (sample_request ''GET'' ''/generate/notes.txt'' []) empty_env
     = (Inr (Response (Text ''Invalid file type'') 400 []), empty_env)
   \<and> \<not> binary (Response (Text ''Invalid file type'') 400 [])
   \<and> \<not> has_success_field (Response (Text ''Invalid file type'') 400 [])
   \<and> fetch (sample_request ''GET'' ''/generate/a.pdf'' []) empty_env
     = (Inr (Response (Text ''Unauthorized'') 401 []), empty_env)
   \<and> \<not> binary (Response (Text ''Unauthorized'') 401 [])
   \<and> \<not> has_success_field (Response (Text ''Unauthorized'') 401 [])
   \<and> fetch (sample_request ''GET'' ''/download/a.pdf'' []) empty_env
     = (Inr (Response (Text ''File not found'') 404 []), empty_env)
   \<and> \<not> binary (Response (Text ''File not found'') 404 [])
   \<and> \<not> has_success_field (Response (Text ''File not found'') 404 [])
   \<and> base_listFiles empty_env
     = Inr (Response (Json (JObject [(''files'', JArray [])])) 200
              (headers_of
                 [(''Content-Type'', ''application/json''),
                  (''Access-Control-Allow-Origin'', ''*'')]))
   \<and> \<not> has_success_field
         (Response (Json (JObject [(''files'', JArray [])])) 200
            (headers_of
               [(''Content-Type'', ''application/json''),
                (''Access-Control-Allow-Origin'', ''*'')]))"
proof -
  have s1: "split ''/generate/notes.txt'' ''/generate/'' = [[], ''notes.txt'']" by code_simp
  have d1: "decodeURIComponent ''notes.txt'' = Inr ''notes.txt''" by code_simp
  have v1: "\<not> isValidFile ''notes.txt''" by code_simp
  have s2: "split ''/generate/a.pdf'' ''/generate/'' = [[], ''a.pdf'']" by code_simp
  have g1: "fetch (sample_request ''GET'' ''/generate/notes.txt'' []) empty_env
     = (Inr (Response (Text ''Invalid file type'') 400 []), empty_env)"
    by (simp add: fetch_def sample_request_def startsWith_def s1 d1 v1 element_def
        generateDownloadUrl_def)
  have g2: "fetch (sample_request ''GET'' ''/generate/a.pdf'' []) empty_env
     = (Inr (Response (Text ''Unauthorized'') 401 []), empty_env)"
    by (simp add: fetch_def sample_request_def startsWith_def s2 decode_a_pdf valid_a_pdf
        element_def generateDownloadUrl_def headers_get_def authorized_def AUTH_TOKEN_def)
  have g3: "fetch (sample_request ''GET'' ''/download/a.pdf'' []) empty_env
     = (Inr (Response (Text ''File not found'') 404 []), empty_env)"
    by (simp add: fetch_def sample_request_def startsWith_def split_download_a_pdf decode_a_pdf
        valid_a_pdf element_def handleDownload_def r2_get_def empty_env_def no_faults_def)
  have b: "base_listFiles empty_env
     = Inr (Response (Json (JObject [(''files'', JArray [])])) 200
              (headers_of
                 [(''Content-Type'', ''application/json''),
                  (''Access-Control-Allow-Origin'', ''*'')]))"
    by (simp add: base_listFiles_def r2_list_def listed_def empty_env_def no_faults_def)
  show ?thesis
    unfolding g1 g2 g3 b
    by (simp add: binary_def has_success_field_def json_field_def Response_def)
qed

text \<open>
  Claim C9, amended. In the counting worker, every response whose body is written with
  \<open>JSON.stringify\<close> is a JSON object with a boolean \<open>success\<close> field. (The other
  non-binary responses are the plain-text validation, authorization, not-found and
  most 500 answers, the HTML root page and the empty preflight answer.)
\<close>

theorem stringified_responses_carry_success:
  assumes "fst (fetch req e) = Inr r" and "written_by_stringify r"
  shows "has_success_field r"
  using assms generate_success [of req e] download_not_stringified [of req e] stats_success [of e]
    all_stats_success [of e] test_kv_success [of e] reset_success [of e] upload_success [of req e r]
    list_success [of e]
  by (auto simp: fetch_def Let_def success_simps documentation_response_def
      not_found_response_def split: if_splits sum.splits)

theorem stringified_responses_carry_success_witness:
  "fst (fetch (sample_request ''GET'' ''/stats/song.mp3'' []) empty_env)
     = Inr (Response
              (Json (JObject
                 [(''success'', JBool True),
                  (''filename'', JString ''song.mp3''),
                  (''downloads'', JNumber 0),
                  (''key'', JString ''download:song.mp3''),
                  (''timestamp'', JString ''2023-11-14T22:13:20.000Z'')]))
              200
              (headers_of
                 [(''Content-Type'', ''application/json''),
                  (''Access-Control-Allow-Origin'', ''*''),
                  (''Cache-Control'', ''no-cache'')]))
   \<and> written_by_stringify
        (Response
              (Json (JObject
                 [(''success'', JBool True),
                  (''filename'', JString ''song.mp3''),
                  (''downloads'', JNumber 0),
                  (''key'', JString ''download:song.mp3''),
                  (''timestamp'', JString ''2023-11-14T22:13:20.000Z'')]))
              200
              (headers_of
                 [(''Content-Type'', ''application/json''),
                  (''Access-Control-Allow-Origin'', ''*''),
                  (''Cache-Control'', ''no-cache'')]))
   \<and> has_success_field
        (Response
              (Json (JObject
                 [(''success'', JBool True),
                  (''filename'', JString ''song.mp3''),
                  (''downloads'', JNumber 0),
                  (''key'', JString ''download:song.mp3''),
                  (''timestamp'', JString ''2023-11-14T22:13:20.000Z'')]))
              200
              (headers_of
                 [(''Content-Type'', ''application/json''),
                  (''Access-Control-Allow-Origin'', ''*''),
                  (''Cache-Control'', ''no-cache'')]))"
proof -
  have f: "fst (fetch (sample_request ''GET'' ''/stats/song.mp3'' []) empty_env)
     = Inr (Response
              (Json (JObject
                 [(''success'', JBool True),
                  (''filename'', JString ''song.mp3''),
                  (''downloads'', JNumber 0),
                  (''key'', JString ''download:song.mp3''),
                  (''timestamp'', JString ''2023-11-14T22:13:20.000Z'')]))
              200
              (headers_of
                 [(''Content-Type'', ''application/json''),
                  (''Access-Control-Allow-Origin'', ''*''),
                  (''Cache-Control'', ''no-cache'')]))"
    by (simp add: fetch_def sample_request_def startsWith_def split_stats_song element_def
        decode_song stats_route_def kv_get_def empty_env_def no_faults_def)
  have w: "written_by_stringify
        (Response
              (Json (JObject
                 [(''success'', JBool True),
                  (''filename'', JString ''song.mp3''),
                  (''downloads'', JNumber 0),
                  (''key'', JString ''download:song.mp3''),
                  (''timestamp'', JString ''2023-11-14T22:13:20.000Z'')]))
              200
              (headers_of
                 [(''Content-Type'', ''application/json''),
                  (''Access-Control-Allow-Origin'', ''*''),
                  (''Cache-Control'', ''no-cache'')]))"
    by (simp add: written_by_stringify_def Response_def)
  from stringified_responses_carry_success [OF f w] f w show ?thesis
    by blast
qed

end
